theory Spec2Isabelle
  imports Main "HOL-Library.Word" "HOL-Library.Multiset"
begin

section \<open>Machine integers\<close>

text \<open>
  The fields \<open>Task::id\<close>, \<open>Task::priority\<close> and \<open>TaskManager::next_id\<close> are C++ \<open>int\<close>:
  32 bits, two's complement. They are 32-bit words here, read as signed numbers by
  \<open>sint\<close>. Addition on words wraps around; in C++ the overflow of \<open>next_id++\<close> and of
  \<open>task.id + 1\<close> is undefined, and the wrap-around is what the machine instruction does.
  No theorem below relies on the wrapped value except to show that an id above
  \<open>INT_MAX\<close> does not exist.
\<close>

type_synonym cint = "32 word"

definition INT_MAX :: cint where
  "INT_MAX = 2147483647"

section \<open>Tasks and JSON documents\<close>

record Task =
  task_id :: cint
  description :: string
  completed :: bool
  priority :: cint

text \<open>
  Modelled from the spec: \<open>json.hpp\<close>, the JSON library behind the type \<open>json\<close>, is not
  among the sources. The spec gives the backing file's shape ("JSON array of objects,
  each with keys id (integer), description (string), completed (boolean), priority
  (integer)"); where it is silent the model follows the library's documented behaviour.
  A document is a JSON value of one of the library's kinds: a number is an integer
  (\<open>JInt\<close>, the literal's value) or a floating-point number (\<open>JFloat m e\<close>, the finite
  double \<open>m * 2 ^ e\<close>); an object is the list of its members, one per key.
\<close>

datatype json =
    JNull
  | JBool bool
  | JInt int
  | JFloat int int
  | JString string
  | JArray "json list"
  | JObject "(string \<times> json) list"

text \<open>The exceptions the program can meet: the library's and \<open>std::stoi\<close>'s.\<close>

datatype exception = parse_error | type_error | out_of_range | invalid_argument

definition and_then :: "'e + 'a \<Rightarrow> ('a \<Rightarrow> 'e + 'b) \<Rightarrow> 'e + 'b" where
  "and_then m f = (case m of Inl e \<Rightarrow> Inl e | Inr x \<Rightarrow> f x)"

text \<open>
  Modelled from the spec: the library calls that \<open>Task::to_json\<close>, \<open>Task::from_json\<close>,
  \<open>save_tasks\<close> and \<open>load_tasks\<close> make, after the library's documented behaviour. \<open>at\<close>
  (here \<open>at_key\<close>) throws on a value that is not an object and on a missing key; the
  conversion to \<open>int\<close> takes a number or a boolean and casts it (\<open>static_cast<int>\<close>: an
  integer wraps to 32 bits, a double is truncated towards zero); the conversions to
  \<open>bool\<close> and \<open>std::string\<close> take a boolean and a string only; a default-constructed
  value is \<open>null\<close>; \<open>push_back\<close> turns \<open>null\<close> into a one-element array and appends to
  an array; a range-for over a value visits an array's elements, an object's member
  values, nothing for \<open>null\<close>, and the value itself for any other value.
\<close>

fun at_key :: "json \<Rightarrow> string \<Rightarrow> exception + json" where
  "at_key (JObject kvs) k = (case map_of kvs k of None \<Rightarrow> Inl out_of_range | Some v \<Rightarrow> Inr v)"
| "at_key _ k = Inl type_error"

definition trunc_double :: "int \<Rightarrow> int \<Rightarrow> int" where
  "trunc_double m e =
     (if 0 \<le> e then m * 2 ^ nat e else sgn m * (\<bar>m\<bar> div 2 ^ nat (- e)))"

fun get_int :: "json \<Rightarrow> exception + cint" where
  "get_int (JInt n) = Inr (word_of_int n)"
| "get_int (JFloat m e) = Inr (word_of_int (trunc_double m e))"
| "get_int (JBool b) = Inr (if b then 1 else 0)"
| "get_int _ = Inl type_error"

fun get_string :: "json \<Rightarrow> exception + string" where
  "get_string (JString s) = Inr s"
| "get_string _ = Inl type_error"

fun get_bool :: "json \<Rightarrow> exception + bool" where
  "get_bool (JBool b) = Inr b"
| "get_bool _ = Inl type_error"

fun push_back :: "json \<Rightarrow> json \<Rightarrow> exception + json" where
  "push_back JNull v = Inr (JArray [v])"
| "push_back (JArray vs) v = Inr (JArray (vs @ [v]))"
| "push_back _ v = Inl type_error"

fun items :: "json \<Rightarrow> json list" where
  "items JNull = []"
| "items (JArray vs) = vs"
| "items (JObject kvs) = map snd kvs"
| "items v = [v]"

text \<open>\<open>Task::to_json\<close> and \<open>Task::from_json\<close> (main.cpp, lines 18 to 34).\<close>

definition to_json :: "Task \<Rightarrow> json" where
  "to_json t = JObject
     [(''id'', JInt (sint (task_id t))),
      (''description'', JString (description t)),
      (''completed'', JBool (completed t)),
      (''priority'', JInt (sint (priority t)))]"

definition from_json :: "json \<Rightarrow> exception + Task" where
  "from_json j =
     and_then (and_then (at_key j ''id'') get_int) (\<lambda>i.
     and_then (and_then (at_key j ''description'') get_string) (\<lambda>d.
     and_then (and_then (at_key j ''completed'') get_bool) (\<lambda>c.
     and_then (and_then (at_key j ''priority'') get_int) (\<lambda>p.
       Inr \<lparr>task_id = i, description = d, completed = c, priority = p\<rparr>))))"

section \<open>The task manager and its backing file\<close>

text \<open>
  The backing file \<open>tasks.json\<close> is modelled by what the library makes of it: there is
  no file to open for reading (\<open>No_file\<close>), its text is not JSON (\<open>Unparseable\<close>, with
  the text), or it reads as a document. The library's text layer is outside the model:
  writing \<open>j.dump(4)\<close> is taken to leave the text that reads back as \<open>j\<close>, which is the
  library's contract for the strings it accepts to write. \<open>writable\<close> tells whether
  \<open>std::ofstream file(filename)\<close> opens.
\<close>

datatype file_content = No_file | Unparseable string | Document json

text \<open>
  The state holds the fields of the \<open>TaskManager\<close> object (\<open>tasks\<close>, \<open>next_id\<close>; the
  file name is the constant \<open>tasks.json\<close>) and the part of the world it acts on: the
  backing file and the two output streams.
\<close>

record TaskManager =
  tasks :: "Task list"
  next_id :: cint
  backing_file :: file_content
  writable :: bool
  cout :: string
  cerr :: string

definition newline :: string where
  "newline = [CHR 0x0A]"

text \<open>
  An operation of the manager either returns the new state or throws: the exception
  comes with the state reached when it is thrown, which is the state a handler sees.
\<close>

type_synonym result = "(exception \<times> TaskManager) + TaskManager"

text \<open>\<open>save_tasks\<close> (lines 116 to 129): \<open>json j\<close> starts as \<open>null\<close>.\<close>

fun push_tasks :: "json \<Rightarrow> Task list \<Rightarrow> exception + json" where
  "push_tasks j [] = Inr j"
| "push_tasks j (t # ts) = and_then (push_back j (to_json t)) (\<lambda>j'. push_tasks j' ts)"

definition save_tasks :: "TaskManager \<Rightarrow> result" where
  "save_tasks s =
     (case push_tasks JNull (tasks s) of
        Inl e \<Rightarrow> Inl (e, s)
      | Inr j \<Rightarrow>
          if writable s then Inr (s\<lparr>backing_file := Document j\<rparr>)
          else Inr (s\<lparr>cerr := cerr s @ ''Error saving tasks to file.'' @ newline\<rparr>))"

text \<open>
  \<open>load_tasks\<close> (lines 131 to 153). The loop over the document's items stops at the
  first item that \<open>from_json\<close> rejects; the state reached by then goes to the handler,
  which clears the tasks and resets the counter.
\<close>

fun load_items :: "json list \<Rightarrow> TaskManager \<Rightarrow> result" where
  "load_items [] s = Inr s"
| "load_items (item # rest) s =
     (case from_json item of
        Inl e \<Rightarrow> Inl (e, s)
      | Inr task \<Rightarrow>
          load_items rest
            (s\<lparr>tasks := tasks s @ [task],
               next_id := (if next_id s \<le>s task_id task then task_id task + 1 else next_id s)\<rparr>))"

definition try_load :: "TaskManager \<Rightarrow> result" where
  "try_load s =
     (case backing_file s of
        Document j \<Rightarrow> load_items (items j) (s\<lparr>tasks := []\<rparr>)
      | _ \<Rightarrow> Inl (parse_error, s))"

definition load_failed :: "TaskManager \<Rightarrow> TaskManager" where
  "load_failed s =
     s\<lparr>cerr := cerr s @ ''Error loading tasks from file. Starting with empty task list.'' @ newline,
       tasks := [],
       next_id := 1\<rparr>"

definition load_tasks :: "TaskManager \<Rightarrow> result" where
  "load_tasks s =
     (if backing_file s = No_file then save_tasks s
      else (case try_load s of Inl (e, s') \<Rightarrow> Inr (load_failed s') | Inr s' \<Rightarrow> Inr s'))"

text \<open>The constructor (line 44): \<open>next_id(1)\<close>, an empty vector, then \<open>load_tasks()\<close>.\<close>

definition construct :: "file_content \<Rightarrow> bool \<Rightarrow> string \<Rightarrow> string \<Rightarrow> result" where
  "construct f w out err =
     load_tasks \<lparr>tasks = [], next_id = 1, backing_file = f, writable = w, cout = out, cerr = err\<rparr>"

section \<open>Printing integers\<close>

text \<open>\<open>std::cout << int\<close> prints the decimal digits, with a minus sign below zero.\<close>

definition digit_char :: "nat \<Rightarrow> char" where
  "digit_char d = ''0123456789'' ! d"

function show_nat :: "nat \<Rightarrow> string" where
  "show_nat n = (if n < 10 then [digit_char n] else show_nat (n div 10) @ [digit_char (n mod 10)])"
  by pat_completeness auto
termination
  by (relation "measure (\<lambda>n. n)") auto

declare show_nat.simps [simp del]

definition show_int :: "int \<Rightarrow> string" where
  "show_int i = (if i < 0 then CHR ''-'' # show_nat (nat (- i)) else show_nat (nat i))"

definition print :: "string \<Rightarrow> TaskManager \<Rightarrow> TaskManager" where
  "print text s = s\<lparr>cout := cout s @ text\<rparr>"

section \<open>The operations of the manager\<close>

text \<open>\<open>add_task\<close> (lines 48 to 52).\<close>

definition add_task :: "string \<Rightarrow> cint \<Rightarrow> TaskManager \<Rightarrow> result" where
  "add_task d p s =
     and_then
       (save_tasks
          (s\<lparr>tasks := tasks s @ [\<lparr>task_id = next_id s, description = d, completed = False, priority = p\<rparr>],
             next_id := next_id s + 1\<rparr>))
       (\<lambda>s'. Inr (print (''Task added with ID: '' @ show_int (sint (next_id s' - 1)) @ newline) s'))"

text \<open>
  \<open>list_tasks\<close> (lines 54 to 86). \<open>std::sort\<close> is given the comparison \<open>task_less\<close>. The
  library's algorithm is not stable: where two tasks agree on priority and id (two
  records of the file with one id), their order in the output is not fixed by the
  standard. The model sorts by insertion, which is one admissible outcome; the theorems
  below state what holds of every outcome: the result is a permutation and is ordered.
\<close>

definition task_less :: "Task \<Rightarrow> Task \<Rightarrow> bool" where
  "task_less a b =
     (if priority a \<noteq> priority b then priority a <s priority b else task_id a <s task_id b)"

fun insert_task :: "Task \<Rightarrow> Task list \<Rightarrow> Task list" where
  "insert_task t [] = [t]"
| "insert_task t (u # us) = (if task_less u t then u # insert_task t us else t # u # us)"

definition std_sort :: "Task list \<Rightarrow> Task list" where
  "std_sort ts = foldr insert_task ts []"

definition priority_label :: "cint \<Rightarrow> string" where
  "priority_label p =
     (if p = 1 then ''HIGH'' else if p = 2 then ''MEDIUM'' else if p = 3 then ''LOW'' else ''UNKNOWN'')"

definition row :: "Task \<Rightarrow> string" where
  "row t =
     ''ID: '' @ show_int (sint (task_id t)) @
     '' | '' @ (if completed t then ''[DONE]'' else ''[PENDING]'') @
     '' | PRIORITY: '' @ priority_label (priority t) @
     '' | '' @ description t @ newline"

fun print_rows :: "bool \<Rightarrow> Task list \<Rightarrow> string" where
  "print_rows show_completed [] = []"
| "print_rows show_completed (t # ts) =
     (if \<not> show_completed \<and> completed t then print_rows show_completed ts
      else row t @ print_rows show_completed ts)"

definition list_tasks :: "bool \<Rightarrow> TaskManager \<Rightarrow> TaskManager" where
  "list_tasks show_completed s =
     (if tasks s = [] then print (''No tasks found.'' @ newline) s
      else print
        (newline @ ''TASK LIST'' @ newline @ ''---------'' @ newline @
         print_rows show_completed (std_sort (tasks s)) @ newline) s)"

text \<open>\<open>mark_done\<close> (lines 88 to 100): \<open>std::find_if\<close> stops at the first task with the id.\<close>

fun mark_first :: "cint \<Rightarrow> Task list \<Rightarrow> Task list option" where
  "mark_first i [] = None"
| "mark_first i (t # ts) =
     (if task_id t = i then Some (t\<lparr>completed := True\<rparr> # ts)
      else map_option ((#) t) (mark_first i ts))"

definition not_found :: "cint \<Rightarrow> string" where
  "not_found i = ''Task with ID '' @ show_int (sint i) @ '' not found.'' @ newline"

definition mark_done :: "cint \<Rightarrow> TaskManager \<Rightarrow> result" where
  "mark_done i s =
     (case mark_first i (tasks s) of
        Some ts \<Rightarrow>
          and_then (save_tasks (s\<lparr>tasks := ts\<rparr>))
            (\<lambda>s'. Inr (print (''Task marked as completed!'' @ newline) s'))
      | None \<Rightarrow> Inr (print (not_found i) s))"

text \<open>
  \<open>delete_task\<close> (lines 102 to 114): \<open>std::remove_if\<close> moves the tasks it keeps to the
  front, in their order, and returns the end of that range; when it is not the end of
  the vector the tail is erased.
\<close>

definition delete_task :: "cint \<Rightarrow> TaskManager \<Rightarrow> result" where
  "delete_task i s =
     (let kept = filter (\<lambda>t. task_id t \<noteq> i) (tasks s) in
      if length kept \<noteq> length (tasks s) then
        and_then (save_tasks (s\<lparr>tasks := kept\<rparr>))
          (\<lambda>s'. Inr (print (''Task deleted successfully!!'' @ newline) s'))
      else Inr (print (not_found i) s))"

section \<open>The command parser\<close>

text \<open>\<open>show_help\<close> (lines 156 to 171).\<close>

definition help_text :: string where
  "help_text =
     newline @ ''COMMAND LINE TASK MANAGER'' @ newline @
     ''--------------------------'' @ newline @
     ''USAGE:'' @ newline @
     ''  add <description> [-p high|medium|low]  Add a new task'' @ newline @
     ''  list                                    List all tasks'' @ newline @
     ''  list pending                            List pending tasks only'' @ newline @
     ''  done <id>                               Mark task as completed'' @ newline @
     ''  delete <id>                             Delete a task'' @ newline @
     ''  help                                    Show this help message'' @ newline @
     ''  exit                                    Exit the program'' @ newline @ newline @
     ''EXAMPLES:'' @ newline @
     ''  add '' @ [CHR 0x22] @ ''Buy groceries'' @ [CHR 0x22] @ '' -p high'' @ newline @
     ''  add '' @ [CHR 0x22] @ ''Walk the dog'' @ [CHR 0x22] @ newline @
     ''  done 2'' @ newline @ newline"

definition show_help :: "TaskManager \<Rightarrow> TaskManager" where
  "show_help s = print help_text s"

text \<open>\<open>parse_priority\<close> (lines 173 to 177).\<close>

definition parse_priority :: "string \<Rightarrow> cint" where
  "parse_priority priority_str = (if priority_str = ''high'' then 1 else if priority_str = ''low'' then 3 else 2)"

text \<open>
  \<open>split_command\<close> (lines 179 to 189): \<open>iss >> std::quoted(token)\<close> until the stream
  fails. The extractor skips white space and reads one character. When it is not the
  double quote, the character is put back and a word is read up to the next white
  space. When it is, characters are taken as they come, a backslash giving the next
  character literally, up to the closing quote; when the input ends before the closing
  quote the stream fails, so the loop ends and the unfinished token is not pushed.
\<close>

definition isspace :: "char \<Rightarrow> bool" where
  "isspace c =
     (c = CHR '' '' \<or> c = CHR 0x09 \<or> c = CHR 0x0A \<or> c = CHR 0x0B \<or> c = CHR 0x0C \<or> c = CHR 0x0D)"

fun read_quoted :: "string \<Rightarrow> string \<Rightarrow> (string \<times> string) option" where
  "read_quoted acc [] = None"
| "read_quoted acc (c # cs) =
     (if c = CHR 0x5C then
        (case cs of [] \<Rightarrow> None | d # ds \<Rightarrow> read_quoted (acc @ [d]) ds)
      else if c = CHR 0x22 then Some (acc, cs)
      else read_quoted (acc @ [c]) cs)"

lemma read_quoted_shorter:
  "read_quoted acc cs = Some (tok, rest) \<Longrightarrow> length rest < length cs"
proof (induction acc cs rule: read_quoted.induct)
  case (1 acc)
  then show ?case by simp
next
  case (2 acc c cs)
  then show ?case
    by (cases cs) (auto split: if_splits)
qed

function split_command :: "string \<Rightarrow> string list" where
  "split_command command =
     (case dropWhile isspace command of
        [] \<Rightarrow> []
      | c # cs \<Rightarrow>
          if c = CHR 0x22 then
            (case read_quoted [] cs of
               None \<Rightarrow> []
             | Some (token, rest) \<Rightarrow> token # split_command rest)
          else takeWhile (\<lambda>x. \<not> isspace x) (c # cs)
                 # split_command (dropWhile (\<lambda>x. \<not> isspace x) (c # cs)))"
  by pat_completeness auto
termination
proof (relation "measure length")
  show "wf (measure length)" by simp
next
  fix command :: string and c cs x2 token rest
  assume d: "dropWhile isspace command = c # cs" and "c = CHR 0x22"
    and "read_quoted [] cs = Some x2" and "(token, rest) = x2"
  then have "length rest < length cs"
    using read_quoted_shorter [of "[]" cs token rest] by simp
  moreover have "length (c # cs) \<le> length command"
    using length_dropWhile_le [of isspace command] d by simp
  ultimately show "(rest, command) \<in> measure length" by simp
next
  fix command :: string and c cs
  assume d: "dropWhile isspace command = c # cs" and ns: "c \<noteq> CHR 0x22"
  have "\<not> isspace c"
    using d hd_dropWhile [of isspace command] by auto
  then have "length (dropWhile (\<lambda>x. \<not> isspace x) (c # cs)) \<le> length cs"
    using length_dropWhile_le [of "\<lambda>x. \<not> isspace x" cs] by simp
  moreover have "length (c # cs) \<le> length command"
    using length_dropWhile_le [of isspace command] d by simp
  ultimately show "(dropWhile (\<lambda>x. \<not> isspace x) (c # cs), command) \<in> measure length" by simp
qed

declare split_command.simps [simp del]

text \<open>
  \<open>std::stoi\<close> (lines 231 and 238) is the library's: \<open>strtol\<close> in base 10 on the token's
  C string, which ends at the first NUL. It skips white space, takes one optional sign
  and the longest run of digits, and ignores what follows. It throws
  \<open>std::invalid_argument\<close> when there is no digit and \<open>std::out_of_range\<close> when the value
  is not an \<open>int\<close>.
\<close>

definition isdigit :: "char \<Rightarrow> bool" where
  "isdigit c = (c \<in> set ''0123456789'')"

definition digits_value :: "string \<Rightarrow> int" where
  "digits_value ds = foldl (\<lambda>a c. 10 * a + (of_char c - 48)) 0 ds"

definition stoi :: "string \<Rightarrow> exception + cint" where
  "stoi str =
     (let s1 = dropWhile isspace (takeWhile (\<lambda>c. c \<noteq> CHR 0x00) str);
          negative = (s1 \<noteq> [] \<and> hd s1 = CHR ''-'');
          s2 = (if s1 \<noteq> [] \<and> (hd s1 = CHR ''-'' \<or> hd s1 = CHR ''+'') then tl s1 else s1);
          ds = takeWhile isdigit s2;
          v = (if negative then - digits_value ds else digits_value ds)
      in if ds = [] then Inl invalid_argument
         else if v < - 2147483648 \<or> 2147483647 < v then Inl out_of_range
         else Inr (word_of_int v))"

text \<open>
  The \<open>add\<close> branch of \<open>main\<close> (lines 209 to 222): the loop over the tokens from index
  2 on, with the description and the priority built so far. A token \<open>-p\<close> with a token
  after it takes that token as the priority; every other token is joined to the
  description.
\<close>

fun add_arguments :: "string list \<Rightarrow> string \<Rightarrow> cint \<Rightarrow> string \<times> cint" where
  "add_arguments [] descr prio = (descr, prio)"
| "add_arguments [t] descr prio = (descr @ '' '' @ t, prio)"
| "add_arguments (t # u # rest) descr prio =
     (if t = ''-p'' then add_arguments rest descr (parse_priority u)
      else add_arguments (u # rest) (descr @ '' '' @ t) prio)"

text \<open>
  One pass of the loop body after the line is read (lines 202 to 245). \<open>tokens[0]\<close> on
  an empty vector (a line of white space only, or one unfinished quote) is undefined
  behaviour. The handlers of \<open>done\<close> and \<open>delete\<close> catch everything thrown in their
  \<open>try\<close> block; \<open>add\<close> has no handler.
\<close>

datatype step =
    Continue TaskManager
  | Break TaskManager
  | Uncaught exception TaskManager
  | Undefined_behaviour TaskManager

definition with_id :: "(cint \<Rightarrow> TaskManager \<Rightarrow> result) \<Rightarrow> string \<Rightarrow> TaskManager \<Rightarrow> step" where
  "with_id operation token s =
     (case stoi token of
        Inl e \<Rightarrow> Continue (print (''Invalid task ID.'' @ newline) s)
      | Inr i \<Rightarrow>
          (case operation i s of
             Inl (e, s') \<Rightarrow> Continue (print (''Invalid task ID.'' @ newline) s')
           | Inr s' \<Rightarrow> Continue s'))"

definition run_command :: "string list \<Rightarrow> TaskManager \<Rightarrow> step" where
  "run_command tokens s =
     (case tokens of
        [] \<Rightarrow> Undefined_behaviour s
      | command # arguments \<Rightarrow>
          if command = ''exit'' then Break s
          else if command = ''help'' then Continue (show_help s)
          else if command = ''add'' \<and> 2 \<le> length tokens then
            (case add_arguments (tl arguments) (hd arguments) 2 of
               (descr, prio) \<Rightarrow>
                 (case add_task descr prio s of
                    Inl (e, s') \<Rightarrow> Uncaught e s'
                  | Inr s' \<Rightarrow> Continue s'))
          else if command = ''list'' then
            Continue (list_tasks (\<not> (1 < length tokens \<and> tokens ! 1 = ''pending'')) s)
          else if command = ''done'' \<and> length tokens = 2 then with_id mark_done (tokens ! 1) s
          else if command = ''delete'' \<and> length tokens = 2 then with_id delete_task (tokens ! 1) s
          else Continue (print (''Unknown command. Type 'help' for available commands.'' @ newline) s))"

definition exec_line :: "string \<Rightarrow> TaskManager \<Rightarrow> step" where
  "exec_line line s = run_command (split_command line) s"

section \<open>The read-eval-print loop\<close>

text \<open>
  Standard input is the characters not yet read and the stream's state bits.
  \<open>std::getline\<close> on a stream that is not good sets \<open>failbit\<close> and leaves the string as
  it is. On a good stream it clears the string and takes characters up to the next
  newline, which it drops; when the input ends first it sets \<open>eofbit\<close>, and \<open>failbit\<close>
  too when it took no character.
\<close>

record istream =
  buffer :: string
  eofbit :: bool
  failbit :: bool

definition getline :: "istream \<Rightarrow> string \<Rightarrow> istream \<times> string" where
  "getline input str =
     (if eofbit input \<or> failbit input then (input\<lparr>failbit := True\<rparr>, str)
      else
        (case dropWhile (\<lambda>c. c \<noteq> CHR 0x0A) (buffer input) of
           [] \<Rightarrow> (input\<lparr>buffer := [], eofbit := True, failbit := (buffer input = [])\<rparr>, buffer input)
         | nl # rest \<Rightarrow>
             (input\<lparr>buffer := rest\<rparr>, takeWhile (\<lambda>c. c \<noteq> CHR 0x0A) (buffer input))))"

record process =
  manager :: TaskManager
  cin :: istream
  line :: string

text \<open>
  How \<open>main\<close> can end: it returns, an exception that no handler catches ends the
  process, or the behaviour is undefined. The loop (lines 196 to 246) has no other exit
  than \<open>break\<close>; a run that never leaves it has no outcome, which is the value \<open>None\<close>.
\<close>

datatype outcome =
    Returned process
  | Terminated exception process
  | Undefined process

partial_function (option) main_loop :: "process \<Rightarrow> outcome option" where
  "main_loop p =
     (case getline (cin p) (line p) of
        (input, str) \<Rightarrow>
          (let p' = \<lparr>manager = print ''> '' (manager p), cin = input, line = str\<rparr> in
           if str = [] then main_loop p'
           else
             (case exec_line str (manager p') of
                Continue s \<Rightarrow> main_loop (p'\<lparr>manager := s\<rparr>)
              | Break s \<Rightarrow> Some (Returned (p'\<lparr>manager := s\<rparr>))
              | Uncaught e s \<Rightarrow> Some (Terminated e (p'\<lparr>manager := s\<rparr>))
              | Undefined_behaviour s \<Rightarrow> Some (Undefined (p'\<lparr>manager := s\<rparr>)))))"

text \<open>
  \<open>main\<close> (lines 191 to 250) on a backing file and a standard input: the constructor,
  the help banner, the loop, the farewell.
\<close>

definition main :: "file_content \<Rightarrow> bool \<Rightarrow> string \<Rightarrow> outcome option" where
  "main f w input =
     (case construct f w [] [] of
        Inl (e, s) \<Rightarrow>
          Some (Terminated e \<lparr>manager = s, cin = \<lparr>buffer = input, eofbit = False, failbit = False\<rparr>, line = []\<rparr>)
      | Inr s \<Rightarrow>
          (case main_loop \<lparr>manager = show_help s, cin = \<lparr>buffer = input, eofbit = False, failbit = False\<rparr>, line = []\<rparr> of
             Some (Returned p) \<Rightarrow> Some (Returned (p\<lparr>manager := print (''Goodbye!'' @ newline) (manager p)\<rparr>))
           | other \<Rightarrow> other))"

section \<open>Notions used in the statements\<close>

text \<open>
  A backing file cannot be parsed into task records when its text is not JSON, or when
  \<open>from_json\<close> throws on one of the document's items: these are the cases in which the
  \<open>try\<close> block of \<open>load_tasks\<close> is left by an exception.
\<close>

definition rejected :: "json \<Rightarrow> bool" where
  "rejected item = isl (from_json item)"

definition unparseable :: "file_content \<Rightarrow> bool" where
  "unparseable f =
     (case f of
        No_file \<Rightarrow> False
      | Unparseable raw \<Rightarrow> True
      | Document j \<Rightarrow> list_ex rejected (items j))"

text \<open>
  The shape the backing file's records are said to have: an object with exactly the keys
  \<open>id\<close>, \<open>description\<close>, \<open>completed\<close> and \<open>priority\<close>, holding an integer, a string, a
  boolean and an integer.
\<close>

fun task_object :: "json \<Rightarrow> bool" where
  "task_object (JObject kvs) =
     (distinct (map fst kvs)
      \<and> set (map fst kvs) = {''id'', ''description'', ''completed'', ''priority''}
      \<and> (case map_of kvs ''id'' of Some (JInt i) \<Rightarrow> True | _ \<Rightarrow> False)
      \<and> (case map_of kvs ''description'' of Some (JString d) \<Rightarrow> True | _ \<Rightarrow> False)
      \<and> (case map_of kvs ''completed'' of Some (JBool c) \<Rightarrow> True | _ \<Rightarrow> False)
      \<and> (case map_of kvs ''priority'' of Some (JInt p) \<Rightarrow> True | _ \<Rightarrow> False))"
| "task_object _ = False"

text \<open>
  The counter that the loop of \<open>load_tasks\<close> reaches from \<open>n\<close> over the tasks it reads.
\<close>

definition counter_after :: "cint \<Rightarrow> Task list \<Rightarrow> cint" where
  "counter_after n ts = foldl (\<lambda>n t. if n \<le>s task_id t then task_id t + 1 else n) n ts"

text \<open>
  A sequence of \<open>add\<close> operations, each with its description and priority; the tasks
  it is expected to append, numbered from the counter on; and the backing states that
  hold no task (no file, \<open>null\<close>, the empty array).
\<close>

fun add_all :: "(string \<times> cint) list \<Rightarrow> TaskManager \<Rightarrow> result" where
  "add_all [] s = Inr s"
| "add_all ((d, p) # rest) s = and_then (add_task d p s) (add_all rest)"

fun numbered :: "cint \<Rightarrow> (string \<times> cint) list \<Rightarrow> Task list" where
  "numbered n [] = []"
| "numbered n ((d, p) # rest) =
     \<lparr>task_id = n, description = d, completed = False, priority = p\<rparr> # numbered (n + 1) rest"

definition empty_backing :: "file_content \<Rightarrow> bool" where
  "empty_backing f = (f = No_file \<or> f = Document JNull \<or> f = Document (JArray []))"

text \<open>
  The tasks whose rows \<open>list_tasks\<close> prints, in the order of the rows, and the order
  "priority ascending, then id ascending" on tasks.
\<close>

definition listed :: "bool \<Rightarrow> TaskManager \<Rightarrow> Task list" where
  "listed show_completed s = filter (\<lambda>t. show_completed \<or> \<not> completed t) (std_sort (tasks s))"

definition by_priority_then_id :: "Task \<Rightarrow> Task \<Rightarrow> bool" where
  "by_priority_then_id a b =
     (sint (priority a) < sint (priority b)
      \<or> (priority a = priority b \<and> sint (task_id a) \<le> sint (task_id b)))"

text \<open>
  The state that a \<open>delete_task\<close> which finds the id is expected to leave: the tasks
  with another id, in their order, persisted if the file opens, and the confirmation on
  the output.
\<close>

definition after_delete :: "cint \<Rightarrow> TaskManager \<Rightarrow> TaskManager" where
  "after_delete i s =
     print (''Task deleted successfully!!'' @ newline)
       (if writable s
        then s\<lparr>tasks := filter (\<lambda>t. task_id t \<noteq> i) (tasks s),
               backing_file := Document
                 (if filter (\<lambda>t. task_id t \<noteq> i) (tasks s) = [] then JNull
                  else JArray (map to_json (filter (\<lambda>t. task_id t \<noteq> i) (tasks s))))\<rparr>
        else s\<lparr>tasks := filter (\<lambda>t. task_id t \<noteq> i) (tasks s),
               cerr := cerr s @ ''Error saving tasks to file.'' @ newline\<rparr>)"

text \<open>
  The description that the \<open>add\<close> branch builds from a first token and the tokens
  joined to it, each after one space.
\<close>

definition joined :: "string \<Rightarrow> string list \<Rightarrow> string" where
  "joined descr ts = foldl (\<lambda>d t. d @ '' '' @ t) descr ts"

section \<open>Facts about saving and loading\<close>


lemma push_tasks_array:
  "push_tasks (JArray vs) ts = Inr (JArray (vs @ map to_json ts))"
  by (induction ts arbitrary: vs) (simp_all add: and_then_def)

lemma push_tasks_null:
  "push_tasks JNull ts = Inr (if ts = [] then JNull else JArray (map to_json ts))"
  by (cases ts) (simp_all add: and_then_def push_tasks_array)

lemma save_tasks_eq:
  "save_tasks s =
     Inr (if writable s
          then s\<lparr>backing_file := Document (if tasks s = [] then JNull else JArray (map to_json (tasks s)))\<rparr>
          else s\<lparr>cerr := cerr s @ ''Error saving tasks to file.'' @ newline\<rparr>)"
  by (simp add: save_tasks_def push_tasks_null)

lemma from_json_to_json: "from_json (to_json t) = Inr t"
  by (simp add: from_json_def to_json_def and_then_def)

lemma load_items_frame:
  "load_items its s = Inl (e, s') \<Longrightarrow> s'\<lparr>tasks := ts, next_id := n\<rparr> = s\<lparr>tasks := ts, next_id := n\<rparr>"
proof (induction its arbitrary: s)
  case Nil
  then show ?case by simp
next
  case (Cons item its)
  show ?case
  proof (cases "from_json item")
    case (Inl x)
    with Cons.prems show ?thesis by simp
  next
    case (Inr task)
    with Cons.prems Cons.IH show ?thesis by fastforce
  qed
qed

lemma load_items_rejected:
  "list_ex rejected its \<Longrightarrow> \<exists>e s'. load_items its s = Inl (e, s')"
proof (induction its arbitrary: s)
  case Nil
  then show ?case by simp
next
  case (Cons item its)
  then show ?case
    by (cases "from_json item") (auto simp: rejected_def)
qed

lemma sint_succ: "x \<noteq> INT_MAX \<Longrightarrow> sint (x + 1 :: cint) = sint x + 1"
proof -
  assume ne: "x \<noteq> INT_MAX"
  have r: "- 2147483648 \<le> sint x" "sint x < 2147483648"
    using sint_ge [of x] sint_lt [of x] by simp_all
  have "sint x \<noteq> 2147483647"
  proof
    assume "sint x = 2147483647"
    then have "word_of_int (sint x) = (word_of_int 2147483647 :: cint)" by simp
    then have "x = INT_MAX" by (simp add: INT_MAX_def)
    with ne show False by simp
  qed
  with r have "- 2147483648 \<le> sint x + 1" "sint x + 1 < 2147483648" by simp_all
  then have "signed_take_bit 31 (sint x + 1) = sint x + 1"
    by (simp add: signed_take_bit_int_eq_self)
  then show ?thesis
    by (simp add: sint_word_ariths)
qed

lemma task_object_to_json: "task_object (to_json t)"
  by (auto simp add: to_json_def)

lemma load_items_to_json:
  "load_items (map to_json ts) s =
     Inr (s\<lparr>tasks := tasks s @ ts, next_id := counter_after (next_id s) ts\<rparr>)"
  by (induction ts arbitrary: s) (simp_all add: from_json_to_json counter_after_def)

lemma counter_after_mono:
  "list_all (\<lambda>t. task_id t \<noteq> INT_MAX) ts \<Longrightarrow> sint n \<le> sint (counter_after n ts)"
proof (induction ts arbitrary: n)
  case Nil
  then show ?case by (simp add: counter_after_def)
next
  case (Cons t ts)
  let ?n = "if n \<le>s task_id t then task_id t + 1 else n"
  have "sint n \<le> sint ?n"
    using Cons.prems by (simp add: word_sle_eq sint_succ)
  moreover have "sint ?n \<le> sint (counter_after ?n ts)"
    using Cons.prems Cons.IH by simp
  moreover have "counter_after n (t # ts) = counter_after ?n ts"
    by (simp add: counter_after_def)
  ultimately show ?case by simp
qed

lemma counter_after_above:
  "list_all (\<lambda>t. task_id t \<noteq> INT_MAX) ts \<Longrightarrow>
   list_all (\<lambda>t. sint (task_id t) < sint (counter_after n ts)) ts"
proof (induction ts arbitrary: n)
  case Nil
  then show ?case by simp
next
  case (Cons t ts)
  let ?n = "if n \<le>s task_id t then task_id t + 1 else n"
  have c: "counter_after n (t # ts) = counter_after ?n ts"
    by (simp add: counter_after_def)
  have "sint (task_id t) < sint ?n"
    using Cons.prems by (auto simp add: word_sle_eq sint_succ)
  moreover have "sint ?n \<le> sint (counter_after ?n ts)"
    using Cons.prems counter_after_mono [of ts ?n] by simp
  ultimately have "sint (task_id t) < sint (counter_after n (t # ts))"
    using c by simp
  moreover have "list_all (\<lambda>t. sint (task_id t) < sint (counter_after ?n ts)) ts"
    using Cons.prems Cons.IH by simp
  ultimately show ?case using c by simp
qed

lemma items_saved: "items (if ts = [] then JNull else JArray (map to_json ts)) = map to_json ts"
  by simp

lemma construct_saved:
  "construct (Document (if ts = [] then JNull else JArray (map to_json ts))) w out err =
     Inr \<lparr>tasks = ts, next_id = counter_after 1 ts,
          backing_file = Document (if ts = [] then JNull else JArray (map to_json ts)),
          writable = w, cout = out, cerr = err\<rparr>"
proof (cases "ts = []")
  case True
  then show ?thesis
    by (simp add: construct_def load_tasks_def try_load_def counter_after_def)
next
  case False
  then show ?thesis
    by (simp add: construct_def load_tasks_def try_load_def load_items_to_json)
qed

lemma add_task_tasks:
  "\<exists>s'. add_task d p s = Inr s'
      \<and> tasks s' = tasks s @ [\<lparr>task_id = next_id s, description = d, completed = False, priority = p\<rparr>]
      \<and> next_id s' = next_id s + 1"
  by (simp add: add_task_def save_tasks_eq and_then_def print_def)

lemma add_all_tasks:
  "\<exists>s'. add_all adds s = Inr s'
      \<and> tasks s' = tasks s @ numbered (next_id s) adds
      \<and> next_id s' = next_id s + of_nat (length adds)"
proof (induction adds arbitrary: s)
  case Nil
  show ?case by simp
next
  case (Cons a adds)
  obtain d p where a: "a = (d, p)" by (cases a)
  obtain s1 where 1: "add_task d p s = Inr s1"
    and t1: "tasks s1 = tasks s @ [\<lparr>task_id = next_id s, description = d, completed = False, priority = p\<rparr>]"
    and n1: "next_id s1 = next_id s + 1"
    using add_task_tasks [of d p s] by blast
  obtain s' where 2: "add_all adds s1 = Inr s'"
    and t2: "tasks s' = tasks s1 @ numbered (next_id s1) adds"
    and n2: "next_id s' = next_id s1 + of_nat (length adds)"
    using Cons.IH [of s1] by blast
  have "add_all (a # adds) s = Inr s'"
    using a 1 2 by (simp add: and_then_def)
  moreover have "tasks s' = tasks s @ numbered (next_id s) (a # adds)"
    using a t1 t2 n1 by simp
  moreover have "next_id s' = next_id s + of_nat (length (a # adds))"
    using n1 n2 by simp
  ultimately show ?case by blast
qed

lemma numbered_ids:
  "sint n + int (length adds) \<le> 2147483647 \<Longrightarrow>
   map (\<lambda>t. sint (task_id t)) (numbered n adds) = map (\<lambda>k. sint n + int k) [0..<length adds]"
proof (induction adds arbitrary: n)
  case Nil
  show ?case by simp
next
  case (Cons a adds)
  obtain d p where a: "a = (d, p)" by (cases a)
  have "sint n \<noteq> sint INT_MAX"
    using Cons.prems by (simp add: INT_MAX_def)
  then have ne: "n \<noteq> INT_MAX" by auto
  then have s: "sint (n + 1) = sint n + 1" by (rule sint_succ)
  with Cons.prems have "sint (n + 1) + int (length adds) \<le> 2147483647" by simp
  then have "map (\<lambda>t. sint (task_id t)) (numbered (n + 1) adds)
      = map (\<lambda>k. sint (n + 1) + int k) [0..<length adds]"
    by (rule Cons.IH)
  also have "\<dots> = map (\<lambda>k. sint n + int k) (map Suc [0..<length adds])"
    using s by simp
  finally have i: "map (\<lambda>t. sint (task_id t)) (numbered (n + 1) adds)
      = map (\<lambda>k. sint n + int k) (map Suc [0..<length adds])" .
  have u: "[0..<length (a # adds)] = 0 # map Suc [0..<length adds]"
    by (simp add: upt_conv_Cons map_Suc_upt del: upt_Suc)
  have "map (\<lambda>t. sint (task_id t)) (numbered n (a # adds))
      = sint n # map (\<lambda>t. sint (task_id t)) (numbered (n + 1) adds)"
    using a by simp
  also have "\<dots> = map (\<lambda>k. sint n + int k) (0 # map Suc [0..<length adds])"
    by (simp only: i) simp
  finally show ?case
    by (simp only: u)
qed

lemma load_items_Inr:
  "load_items its s = Inr s' \<Longrightarrow>
   \<exists>ts. s' = s\<lparr>tasks := tasks s @ ts, next_id := counter_after (next_id s) ts\<rparr>"
proof (induction its arbitrary: s)
  case Nil
  then have "s' = s\<lparr>tasks := tasks s @ [], next_id := counter_after (next_id s) []\<rparr>"
    by (simp add: counter_after_def)
  then show ?case by blast
next
  case (Cons item its)
  show ?case
  proof (cases "from_json item")
    case (Inl e)
    with Cons.prems show ?thesis by simp
  next
    case (Inr task)
    let ?s1 = "s\<lparr>tasks := tasks s @ [task],
        next_id := (if next_id s \<le>s task_id task then task_id task + 1 else next_id s)\<rparr>"
    from Cons.prems Inr have "load_items its ?s1 = Inr s'" by simp
    then obtain ts where "s' = ?s1\<lparr>tasks := tasks ?s1 @ ts, next_id := counter_after (next_id ?s1) ts\<rparr>"
      using Cons.IH by blast
    then have "s' = s\<lparr>tasks := tasks s @ (task # ts), next_id := counter_after (next_id s) (task # ts)\<rparr>"
      by (simp add: counter_after_def)
    then show ?thesis by blast
  qed
qed

lemma construct_counter:
  assumes "construct f w out err = Inr s0"
  shows "next_id s0 = counter_after 1 (tasks s0)"
proof (cases f)
  case No_file
  with assms show ?thesis
    by (auto simp add: construct_def load_tasks_def save_tasks_eq counter_after_def split: if_splits)
next
  case (Unparseable raw)
  with assms show ?thesis
    by (auto simp add: construct_def load_tasks_def try_load_def load_failed_def counter_after_def)
next
  case (Document j)
  let ?s = "\<lparr>tasks = [], next_id = 1, backing_file = f, writable = w, cout = out, cerr = err\<rparr>"
  show ?thesis
  proof (cases "load_items (items j) ?s")
    case (Inl a)
    with assms Document show ?thesis
      by (cases a) (auto simp add: construct_def load_tasks_def try_load_def load_failed_def counter_after_def)
  next
    case (Inr s')
    then obtain ts where "s' = ?s\<lparr>tasks := tasks ?s @ ts, next_id := counter_after (next_id ?s) ts\<rparr>"
      using load_items_Inr by blast
    moreover from assms Document Inr have "s0 = s'"
      by (simp add: construct_def load_tasks_def try_load_def)
    ultimately show ?thesis by simp
  qed
qed

lemma construct_returns: "\<exists>s. construct f w out err = Inr s"
proof (cases "f = No_file")
  case True
  then show ?thesis by (simp add: construct_def load_tasks_def save_tasks_eq)
next
  case False
  let ?s = "\<lparr>tasks = [], next_id = 1, backing_file = f, writable = w, cout = out, cerr = err\<rparr>"
  show ?thesis
  proof (cases "try_load ?s")
    case (Inl a)
    with False show ?thesis
      by (cases a) (simp add: construct_def load_tasks_def)
  next
    case (Inr s')
    with False show ?thesis
      by (simp add: construct_def load_tasks_def)
  qed
qed

lemma construct_empty_backing:
  assumes "construct f w out err = Inr s0" and "empty_backing f"
  shows "tasks s0 = [] \<and> next_id s0 = 1"
  using assms
  by (auto simp add: empty_backing_def construct_def load_tasks_def try_load_def save_tasks_eq
      split: if_splits)

lemma show_int_ex: "show_int (- 2147483648) = ''-2147483648''"
  by (simp add: show_int_def digit_char_def show_nat.simps)

section \<open>Facts about listing\<close>

lemma print_rows_filter:
  "print_rows sc ts = concat (map row (filter (\<lambda>t. sc \<or> \<not> completed t) ts))"
  by (induction ts) auto

lemma sint_neq:
  assumes "(a :: cint) \<noteq> b"
  shows "sint a \<noteq> sint b"
proof
  assume "sint a = sint b"
  then have "(word_of_int (sint a) :: cint) = word_of_int (sint b)" by simp
  with assms show False by simp
qed

lemma not_task_less: "\<not> task_less u t \<Longrightarrow> by_priority_then_id t u"
proof (cases "priority u = priority t")
  case True
  assume "\<not> task_less u t"
  with True show ?thesis
    by (simp add: task_less_def by_priority_then_id_def word_sless_alt)
next
  case False
  assume "\<not> task_less u t"
  with False have "\<not> sint (priority u) < sint (priority t)"
    by (simp add: task_less_def word_sless_alt)
  with sint_neq [OF False] show ?thesis
    by (simp add: by_priority_then_id_def)
qed

lemma task_less_le: "task_less u t \<Longrightarrow> by_priority_then_id u t"
  by (auto simp add: task_less_def by_priority_then_id_def word_sless_alt word_eq_iff_signed [of "priority u"]
      split: if_splits)

lemma by_priority_then_id_trans:
  "by_priority_then_id a b \<Longrightarrow> by_priority_then_id b c \<Longrightarrow> by_priority_then_id a c"
  by (auto simp add: by_priority_then_id_def)

lemma set_insert_task: "set (insert_task t ts) = insert t (set ts)"
  by (induction ts) auto

lemma mset_insert_task: "mset (insert_task t ts) = add_mset t (mset ts)"
  by (induction ts) simp_all

lemma sorted_insert_task:
  "sorted_wrt by_priority_then_id ts \<Longrightarrow> sorted_wrt by_priority_then_id (insert_task t ts)"
proof (induction ts)
  case Nil
  show ?case by simp
next
  case (Cons u us)
  show ?case
  proof (cases "task_less u t")
    case True
    then have "by_priority_then_id u t" by (rule task_less_le)
    with Cons show ?thesis
      using True by (auto simp add: set_insert_task)
  next
    case False
    then have tu: "by_priority_then_id t u" by (rule not_task_less)
    have "\<forall>x\<in>set us. by_priority_then_id t x"
      using Cons.prems tu by (auto intro: by_priority_then_id_trans)
    with Cons.prems tu False show ?thesis by simp
  qed
qed

lemma mset_std_sort: "mset (std_sort ts) = mset ts"
  by (induction ts) (simp_all add: std_sort_def mset_insert_task)

lemma sorted_std_sort: "sorted_wrt by_priority_then_id (std_sort ts)"
  by (induction ts) (simp_all add: std_sort_def sorted_insert_task)

lemma no_tasks_iff:
  "(list_tasks show_completed s = print (''No tasks found.'' @ newline) s) = (tasks s = [])"
proof
  assume l: "list_tasks show_completed s = print (''No tasks found.'' @ newline) s"
  show "tasks s = []"
  proof (rule ccontr)
    assume "tasks s \<noteq> []"
    with l have "cout (print (newline @ ''TASK LIST'' @ newline @ ''---------'' @ newline @
         print_rows show_completed (std_sort (tasks s)) @ newline) s)
       = cout (print (''No tasks found.'' @ newline) s)"
      by (simp add: list_tasks_def)
    then show False
      by (simp add: print_def newline_def)
  qed
next
  assume "tasks s = []"
  then show "list_tasks show_completed s = print (''No tasks found.'' @ newline) s"
    by (simp add: list_tasks_def)
qed

section \<open>Facts about deleting\<close>

lemma filter_keeps_all:
  "(length (filter P xs) = length xs) = list_all P xs"
proof (induction xs)
  case Nil
  show ?case by simp
next
  case (Cons x xs)
  have le: "length (filter P xs) \<le> length xs" by (rule length_filter_le)
  show ?case
  proof (cases "P x")
    case True
    with Cons show ?thesis by simp
  next
    case False
    from le have "length (filter P xs) \<noteq> Suc (length xs)" by arith
    with False show ?thesis by simp
  qed
qed

lemma removes_one:
  "distinct (map task_id ts) \<Longrightarrow> list_ex (\<lambda>t. task_id t = i) ts \<Longrightarrow>
   length (filter (\<lambda>t. task_id t \<noteq> i) ts) + 1 = length ts"
proof (induction ts)
  case Nil
  then show ?case by simp
next
  case (Cons t ts)
  show ?case
  proof (cases "task_id t = i")
    case True
    with Cons.prems have "i \<notin> task_id ` set ts" by simp
    then have "list_all (\<lambda>u. task_id u \<noteq> i) ts"
      by (auto simp add: list_all_iff)
    then have "length (filter (\<lambda>u. task_id u \<noteq> i) ts) = length ts"
      by (simp add: filter_keeps_all)
    with True show ?thesis by simp
  next
    case False
    with Cons show ?thesis by simp
  qed
qed

lemma delete_task_found:
  assumes "list_ex (\<lambda>t. task_id t = i) (tasks s)"
  shows "delete_task i s =
     and_then (save_tasks (s\<lparr>tasks := filter (\<lambda>t. task_id t \<noteq> i) (tasks s)\<rparr>))
       (\<lambda>s'. Inr (print (''Task deleted successfully!!'' @ newline) s'))"
proof -
  have "\<not> list_all (\<lambda>t. task_id t \<noteq> i) (tasks s)"
    using assms by (auto simp add: list_all_iff list_ex_iff)
  then have "length (filter (\<lambda>t. task_id t \<noteq> i) (tasks s)) \<noteq> length (tasks s)"
    by (simp add: filter_keeps_all)
  then show ?thesis
    by (simp add: delete_task_def Let_def)
qed

lemma delete_task_absent:
  assumes "list_all (\<lambda>t. task_id t \<noteq> i) (tasks s)"
  shows "delete_task i s = Inr (print (not_found i) s)"
  using assms by (simp add: delete_task_def Let_def filter_keeps_all)

lemma show_int_1: "show_int 1 = ''1''"
  by (simp add: show_int_def digit_char_def show_nat.simps)

section \<open>Facts about the parser and the loop\<close>

lemma split_help: "split_command ''help'' = [''help'']"
  by (simp add: split_command.simps isspace_def)

lemma split_done: "split_command ''done 1abc'' = [''done'', ''1abc'']"
  by (simp add: split_command.simps isspace_def)

lemma stoi_1abc: "stoi ''1abc'' = Inr 1"
  by (simp add: stoi_def isspace_def isdigit_def digits_value_def Let_def)

lemma split_quoted: "split_command (''add '' @ [CHR 0x22] @ ''Buy  milk'' @ [CHR 0x22] @ '' -p high'') = [''add'', ''Buy  milk'', ''-p'', ''high'']"
  by (simp add: split_command.simps isspace_def)

lemma split_done_abc: "split_command ''done abc'' = [''done'', ''abc'']"
  by (simp add: split_command.simps isspace_def)

lemma stoi_abc: "stoi ''abc'' = Inl invalid_argument"
  by (simp add: stoi_def isspace_def isdigit_def digits_value_def Let_def)

lemma split_add_1: "split_command ''add Buy milk -p'' = [''add'', ''Buy'', ''milk'', ''-p'']"
  by (simp add: split_command.simps isspace_def)

lemma split_add_2: "split_command ''add x -p high -p'' = [''add'', ''x'', ''-p'', ''high'', ''-p'']"
  by (simp add: split_command.simps isspace_def)

lemma split_add_3: "split_command ''add x -p -p'' = [''add'', ''x'', ''-p'', ''-p'']"
  by (simp add: split_command.simps isspace_def)

lemma add_arguments_plain:
  "''-p'' \<notin> set middle \<Longrightarrow>
   add_arguments (middle @ rest) descr prio = add_arguments rest (joined descr middle) prio"
proof (induction middle arbitrary: descr)
  case Nil
  show ?case by (simp add: joined_def)
next
  case (Cons t middle)
  then have ih: "add_arguments (middle @ rest) (descr @ '' '' @ t) prio
      = add_arguments rest (joined (descr @ '' '' @ t) middle) prio"
    by simp
  from Cons.prems have nt: "t \<noteq> ''-p''" by auto
  have j: "joined descr (t # middle) = joined (descr @ '' '' @ t) middle"
    by (simp add: joined_def)
  show ?case
  proof (cases "middle @ rest")
    case Nil
    then show ?thesis by (simp add: joined_def)
  next
    case (Cons u us)
    with nt have "add_arguments ((t # middle) @ rest) descr prio
        = add_arguments (middle @ rest) (descr @ '' '' @ t) prio"
      by simp
    with ih j show ?thesis by simp
  qed
qed

lemma split_exit: "split_command ''exit'' = [''exit'']"
  by (simp add: split_command.simps isspace_def)

lemma exit_returns:
  "main No_file True (''exit'' @ newline) =
     Some (Returned
       \<lparr>manager =
          \<lparr>tasks = [], next_id = 1, backing_file = Document JNull, writable = True,
           cout = help_text @ ''> '' @ ''Goodbye!'' @ newline, cerr = []\<rparr>,
        cin = \<lparr>buffer = [], eofbit = False, failbit = False\<rparr>,
        line = ''exit''\<rparr>)"
proof -
  have c: "construct No_file True [] [] =
      Inr \<lparr>tasks = [], next_id = 1, backing_file = Document JNull, writable = True,
           cout = [], cerr = []\<rparr>"
    by (simp add: construct_def load_tasks_def save_tasks_eq)
  show ?thesis
    unfolding main_def c
    by (subst main_loop.simps)
       (simp add: getline_def newline_def exec_line_def split_exit run_command_def Let_def
          show_help_def print_def)
qed

lemma blank_line_undefined:
  "exec_line ''  '' s = Undefined_behaviour s"
  by (simp add: exec_line_def split_command.simps isspace_def run_command_def)

text \<open>
  What \<open>std::stoi\<close> makes of a token that starts with digits: it reads them and ignores
  the rest of the token.
\<close>

lemma isdigit_cases:
  "isdigit c \<Longrightarrow> \<not> isspace c \<and> c \<noteq> CHR ''-'' \<and> c \<noteq> CHR ''+'' \<and> c \<noteq> CHR 0x00 \<and> 48 \<le> (of_char c :: int)"
  by (auto simp add: isdigit_def isspace_def)

lemma digits_value_nonneg:
  "list_all isdigit ds \<Longrightarrow> 0 \<le> (a :: int) \<Longrightarrow> 0 \<le> foldl (\<lambda>a c. 10 * a + (of_char c - 48)) a ds"
proof (induction ds arbitrary: a)
  case Nil
  then show ?case by simp
next
  case (Cons d ds)
  then have "48 \<le> (of_char d :: int)" using isdigit_cases [of d] by simp
  with Cons.prems have "0 \<le> 10 * a + (of_char d - 48)" by simp
  with Cons show ?case by simp
qed

lemma stoi_reads_prefix:
  assumes "ds \<noteq> []" and "list_all isdigit ds" and "digits_value ds \<le> 2147483647"
    and "rest = [] \<or> \<not> isdigit (hd rest)"
  shows "stoi (ds @ rest) = Inr (word_of_int (digits_value ds))"
proof -
  obtain d ds' where ds: "ds = d # ds'" using assms(1) by (cases ds) auto
  have all: "\<forall>c\<in>set ds. c \<noteq> CHR 0x00"
    using assms(2) isdigit_cases by (auto simp add: list_all_iff)
  let ?r = "takeWhile (\<lambda>c. c \<noteq> CHR 0x00) rest"
  have 1: "takeWhile (\<lambda>c. c \<noteq> CHR 0x00) (ds @ rest) = ds @ ?r"
    using all by (simp add: takeWhile_append2)
  have d: "isdigit d" using assms(2) ds by simp
  have 2: "dropWhile isspace (ds @ ?r) = ds @ ?r"
    using d ds isdigit_cases [of d] by simp
  have r: "takeWhile isdigit ?r = []"
  proof (cases rest)
    case Nil
    then show ?thesis by simp
  next
    case (Cons c cs)
    with assms(4) have "\<not> isdigit c" by simp
    with Cons show ?thesis by simp
  qed
  have 3: "takeWhile isdigit (ds @ ?r) = ds"
    using assms(2) r by (simp add: takeWhile_append2 list_all_iff)
  have 4: "0 \<le> digits_value ds"
    using digits_value_nonneg [OF assms(2), of 0] by (simp add: digits_value_def)
  have h: "hd (ds @ ?r) = d" "ds @ ?r \<noteq> []" using ds by simp_all
  show ?thesis
    using 4 assms(1,3) d isdigit_cases [of d]
    by (simp add: stoi_def 1 2 3 h Let_def)
qed

lemma run_command_Break:
  "run_command tokens s = Break s' \<Longrightarrow> \<exists>arguments. tokens = ''exit'' # arguments"
  by (cases tokens)
     (auto simp add: run_command_def with_id_def split: if_splits sum.splits prod.splits)

lemma returns_only_on_exit:
  assumes "main_loop p = Some (Returned q)"
  shows "\<exists>arguments. split_command (line q) = ''exit'' # arguments"
proof -
  have "\<forall>q. Some (Returned q) = Some y \<longrightarrow> (\<exists>arguments. split_command (line q) = ''exit'' # arguments)"
    if "main_loop p = Some y" for y
  proof (rule main_loop.raw_induct
      [where P = "\<lambda>p y. \<forall>q. Some (Returned q) = Some y \<longrightarrow>
         (\<exists>arguments. split_command (line q) = ''exit'' # arguments)"])
    show "main_loop p = Some y" by (rule that)
  next
    fix f :: "process \<Rightarrow> outcome option" and r :: process and z
    assume IH: "\<And>x y. f x = Some y \<Longrightarrow>
        \<forall>q. Some (Returned q) = Some y \<longrightarrow> (\<exists>arguments. split_command (line q) = ''exit'' # arguments)"
      and step: "(case getline (cin r) (line r) of
        (input, str) \<Rightarrow>
          (let p' = \<lparr>manager = print ''> '' (manager r), cin = input, line = str\<rparr> in
           if str = [] then f p'
           else
             (case exec_line str (manager p') of
                Continue s \<Rightarrow> f (p'\<lparr>manager := s\<rparr>)
              | Break s \<Rightarrow> Some (Returned (p'\<lparr>manager := s\<rparr>))
              | Uncaught e s \<Rightarrow> Some (Terminated e (p'\<lparr>manager := s\<rparr>))
              | Undefined_behaviour s \<Rightarrow> Some (Undefined (p'\<lparr>manager := s\<rparr>))))) = Some z"
    obtain input str where g: "getline (cin r) (line r) = (input, str)"
      by (cases "getline (cin r) (line r)")
    let ?p' = "\<lparr>manager = print ''> '' (manager r), cin = input, line = str\<rparr>"
    show "\<forall>q. Some (Returned q) = Some z \<longrightarrow> (\<exists>arguments. split_command (line q) = ''exit'' # arguments)"
    proof (cases "str = []")
      case True
      with step g have "f ?p' = Some z" by (simp add: Let_def)
      then show ?thesis by (rule IH)
    next
      case False
      show ?thesis
      proof (cases "exec_line str (manager ?p')")
        case (Continue s)
        with step g False have "f (?p'\<lparr>manager := s\<rparr>) = Some z" by (simp add: Let_def)
        then show ?thesis by (rule IH)
      next
        case (Break s)
        then have "run_command (split_command str) (manager ?p') = Break s"
          by (simp add: exec_line_def)
        then obtain arguments where "split_command str = ''exit'' # arguments"
          using run_command_Break by blast
        moreover from step g False Break have "z = Returned (?p'\<lparr>manager := s\<rparr>)"
          by (simp add: Let_def)
        ultimately show ?thesis by auto
      next
        case (Uncaught e s)
        with step g False show ?thesis by (auto simp add: Let_def)
      next
        case (Undefined_behaviour s)
        with step g False show ?thesis by (auto simp add: Let_def)
      qed
    qed
  qed
  with assms show ?thesis by blast
qed

lemma exit_line_returns:
  assumes "\<not> eofbit (cin p)" and "\<not> failbit (cin p)"
    and "buffer (cin p) = ln @ CHR 0x0A # rest" and "CHR 0x0A \<notin> set ln"
    and "split_command ln = ''exit'' # arguments"
  shows "main_loop p =
     Some (Returned \<lparr>manager = print ''> '' (manager p), cin = (cin p)\<lparr>buffer := rest\<rparr>, line = ln\<rparr>)"
proof -
  have d: "dropWhile (\<lambda>c. c \<noteq> CHR 0x0A) (ln @ CHR 0x0A # rest) = CHR 0x0A # rest"
    using assms(4) by (induction ln) auto
  have t: "takeWhile (\<lambda>c. c \<noteq> CHR 0x0A) (ln @ CHR 0x0A # rest) = ln"
    using assms(4) by (induction ln) auto
  have g: "getline (cin p) (line p) = ((cin p)\<lparr>buffer := rest\<rparr>, ln)"
    using assms(1,2,3) d t by (simp add: getline_def)
  have ne: "ln \<noteq> []"
    using assms(5) by (auto simp add: split_command.simps)
  have e: "exec_line ln s = Break s" for s
    using assms(5) by (simp add: exec_line_def run_command_def)
  show ?thesis
    by (subst main_loop.simps) (simp add: g ne e Let_def)
qed

lemma spins:
  assumes "main_loop p = Some y"
  shows "\<not> ((eofbit (cin p) \<or> failbit (cin p)) \<and> line p = [])"
proof (rule main_loop.raw_induct
    [where P = "\<lambda>p y. \<not> ((eofbit (cin p) \<or> failbit (cin p)) \<and> line p = [])"])
  show "main_loop p = Some y" by (rule assms)
next
  fix f :: "process \<Rightarrow> outcome option" and q z
  assume IH: "\<And>x y. f x = Some y \<Longrightarrow> \<not> ((eofbit (cin x) \<or> failbit (cin x)) \<and> line x = [])"
    and step: "(case getline (cin q) (line q) of
        (input, str) \<Rightarrow>
          (let p' = \<lparr>manager = print ''> '' (manager q), cin = input, line = str\<rparr> in
           if str = [] then f p'
           else
             (case exec_line str (manager p') of
                Continue s \<Rightarrow> f (p'\<lparr>manager := s\<rparr>)
              | Break s \<Rightarrow> Some (Returned (p'\<lparr>manager := s\<rparr>))
              | Uncaught e s \<Rightarrow> Some (Terminated e (p'\<lparr>manager := s\<rparr>))
              | Undefined_behaviour s \<Rightarrow> Some (Undefined (p'\<lparr>manager := s\<rparr>))))) = Some z"
  show "\<not> ((eofbit (cin q) \<or> failbit (cin q)) \<and> line q = [])"
  proof
    assume a: "(eofbit (cin q) \<or> failbit (cin q)) \<and> line q = []"
    let ?p' = "\<lparr>manager = print ''> '' (manager q), cin = (cin q)\<lparr>failbit := True\<rparr>, line = []\<rparr>"
    from a have "getline (cin q) (line q) = ((cin q)\<lparr>failbit := True\<rparr>, [])"
      by (simp add: getline_def)
    with step have "f ?p' = Some z" by (simp add: Let_def)
    then have "\<not> ((eofbit (cin ?p') \<or> failbit (cin ?p')) \<and> line ?p' = [])"
      by (rule IH)
    then show False by simp
  qed
qed

lemma at_end_of_input:
  assumes "buffer (cin p) = []" and "\<not> eofbit (cin p)" and "\<not> failbit (cin p)"
  shows "main_loop p = None"
proof -
  let ?p' = "\<lparr>manager = print ''> '' (manager p),
      cin = (cin p)\<lparr>buffer := [], eofbit := True, failbit := True\<rparr>, line = []\<rparr>"
  have "main_loop p = main_loop ?p'"
    using assms by (subst main_loop.simps) (simp add: getline_def Let_def)
  moreover have "main_loop ?p' = None"
  proof (cases "main_loop ?p'")
    case None
    then show ?thesis .
  next
    case (Some y)
    then show ?thesis using spins [OF Some] by simp
  qed
  ultimately show ?thesis by simp
qed

section \<open>Loading a file that cannot be parsed\<close>

text \<open>
  Claim C9. When the backing file's text is not JSON, or one of the document's items is
  not accepted as a task record, \<open>load_tasks\<close> returns normally, with no task in
  memory and the counter at 1; only the diagnostic on the error stream is added, and the
  file is left as it is. The tasks read before the rejected item are not kept.
\<close>

theorem load_unparseable:
  assumes "unparseable (backing_file s)"
  shows "load_tasks s =
     Inr (s\<lparr>cerr := cerr s @ ''Error loading tasks from file. Starting with empty task list.'' @ newline,
            tasks := [], next_id := 1\<rparr>)"
proof -
  have nf: "backing_file s \<noteq> No_file"
    using assms by (auto simp: unparseable_def)
  have "\<exists>e s'. try_load s = Inl (e, s') \<and> s'\<lparr>tasks := [], next_id := 1\<rparr> = s\<lparr>tasks := [], next_id := 1\<rparr>"
  proof (cases "backing_file s")
    case No_file
    with nf show ?thesis by simp
  next
    case (Unparseable raw)
    then show ?thesis by (simp add: try_load_def)
  next
    case (Document j)
    with assms have "list_ex rejected (items j)" by (simp add: unparseable_def)
    then obtain e s' where l: "load_items (items j) (s\<lparr>tasks := []\<rparr>) = Inl (e, s')"
      using load_items_rejected by blast
    from load_items_frame [OF l, where ts = "[]" and n = 1] Document l show ?thesis
      by (simp add: try_load_def)
  qed
  then obtain e s' where t: "try_load s = Inl (e, s')"
    and f: "s'\<lparr>tasks := [], next_id := 1\<rparr> = s\<lparr>tasks := [], next_id := 1\<rparr>" by blast
  have "load_failed s' = (s'\<lparr>tasks := [], next_id := 1\<rparr>)\<lparr>cerr := cerr (s'\<lparr>tasks := [], next_id := 1\<rparr>) @ ''Error loading tasks from file. Starting with empty task list.'' @ newline\<rparr>"
    by (simp add: load_failed_def)
  also have "\<dots> = (s\<lparr>tasks := [], next_id := 1\<rparr>)\<lparr>cerr := cerr (s\<lparr>tasks := [], next_id := 1\<rparr>) @ ''Error loading tasks from file. Starting with empty task list.'' @ newline\<rparr>"
    by (simp only: f)
  finally have "load_failed s' = s\<lparr>cerr := cerr s @ ''Error loading tasks from file. Starting with empty task list.'' @ newline, tasks := [], next_id := 1\<rparr>"
    by simp
  with t nf show ?thesis by (simp add: load_tasks_def)
qed

text \<open>
  The theorem at a file whose second record is a string: the first record is read into
  memory before the exception, and is gone after the handler.
\<close>

theorem load_unparseable_witness:
  "unparseable (Document (JArray
       [to_json \<lparr>task_id = 4, description = ''a'', completed = False, priority = 1\<rparr>, JString ''b'']))
   \<and> load_tasks \<lparr>tasks = [], next_id = 1,
        backing_file = Document (JArray
          [to_json \<lparr>task_id = 4, description = ''a'', completed = False, priority = 1\<rparr>, JString ''b'']),
        writable = True, cout = [], cerr = []\<rparr>
     = Inr \<lparr>tasks = [], next_id = 1,
        backing_file = Document (JArray
          [to_json \<lparr>task_id = 4, description = ''a'', completed = False, priority = 1\<rparr>, JString ''b'']),
        writable = True, cout = [],
        cerr = ''Error loading tasks from file. Starting with empty task list.'' @ newline\<rparr>"
proof -
  have u: "unparseable (Document (JArray
       [to_json \<lparr>task_id = 4, description = ''a'', completed = False, priority = 1\<rparr>, JString ''b'']))"
    by (simp add: unparseable_def rejected_def from_json_def to_json_def and_then_def)
  show ?thesis
    using u load_unparseable [of "\<lparr>tasks = [], next_id = 1,
        backing_file = Document (JArray
          [to_json \<lparr>task_id = 4, description = ''a'', completed = False, priority = 1\<rparr>, JString ''b'']),
        writable = True, cout = [], cerr = []\<rparr>"]
    by simp
qed

section \<open>What a persist writes\<close>

text \<open>
  Claim C4, as the code has it. When the file opens for writing, \<open>save_tasks\<close> replaces
  its content by one document: for a collection that is not empty, the array of the
  tasks' objects in the collection's order, each object with exactly the keys \<open>id\<close>
  (integer), \<open>description\<close> (string), \<open>completed\<close> (boolean) and \<open>priority\<close> (integer);
  for the empty collection, the value \<open>null\<close>. When the file does not open, the file is
  left as it is and the failure is reported on the error stream.
\<close>

theorem persist_shape:
  "save_tasks s =
     Inr (if writable s
          then s\<lparr>backing_file :=
                 Document (if tasks s = [] then JNull else JArray (map to_json (tasks s)))\<rparr>
          else s\<lparr>cerr := cerr s @ ''Error saving tasks to file.'' @ newline\<rparr>)
   \<and> list_all task_object (map to_json (tasks s))"
  by (simp add: save_tasks_eq list_all_iff task_object_to_json)

theorem persist_shape_witness:
  "writable \<lparr>tasks = [\<lparr>task_id = 1, description = ''a'', completed = False, priority = 2\<rparr>],
            next_id = 2, backing_file = No_file, writable = True, cout = [], cerr = []\<rparr>
   \<and> save_tasks \<lparr>tasks = [\<lparr>task_id = 1, description = ''a'', completed = False, priority = 2\<rparr>],
            next_id = 2, backing_file = No_file, writable = True, cout = [], cerr = []\<rparr>
     = Inr \<lparr>tasks = [\<lparr>task_id = 1, description = ''a'', completed = False, priority = 2\<rparr>],
            next_id = 2,
            backing_file = Document (JArray [JObject
              [(''id'', JInt 1), (''description'', JString ''a''),
               (''completed'', JBool False), (''priority'', JInt 2)]]),
            writable = True, cout = [], cerr = []\<rparr>
   \<and> task_object (JObject
              [(''id'', JInt 1), (''description'', JString ''a''),
               (''completed'', JBool False), (''priority'', JInt 2)])"
  using persist_shape [of "\<lparr>tasks = [\<lparr>task_id = 1, description = ''a'', completed = False, priority = 2\<rparr>],
            next_id = 2, backing_file = No_file, writable = True, cout = [], cerr = []\<rparr>"]
  by (simp add: to_json_def)

text \<open>
  Against claim C4 as stated: on the first start, with no backing file, the file
  written is \<open>null\<close>, which is not the empty array.
\<close>

theorem persist_empty_counterexample:
  "construct No_file True [] [] =
     Inr \<lparr>tasks = [], next_id = 1, backing_file = Document JNull,
          writable = True, cout = [], cerr = []\<rparr>
   \<and> Document JNull \<noteq> Document (JArray [])"
  by (simp add: construct_def load_tasks_def save_tasks_def)

section \<open>Saving and loading again\<close>

text \<open>
  Claim C6, as the code has it. When the file opens for writing and no task has the id
  \<open>INT_MAX\<close>, a persist followed by the construction of a fresh manager on the file
  gives the same tasks in the same order, and a counter (\<open>counter_after 1\<close> of the
  tasks) above every loaded id.
\<close>

theorem round_trip:
  assumes "writable s" and "list_all (\<lambda>t. task_id t \<noteq> INT_MAX) (tasks s)"
  shows "save_tasks s =
           Inr (s\<lparr>backing_file :=
                  Document (if tasks s = [] then JNull else JArray (map to_json (tasks s)))\<rparr>)
         \<and> construct (Document (if tasks s = [] then JNull else JArray (map to_json (tasks s))))
             w out err =
           Inr \<lparr>tasks = tasks s, next_id = counter_after 1 (tasks s),
                backing_file = Document (if tasks s = [] then JNull else JArray (map to_json (tasks s))),
                writable = w, cout = out, cerr = err\<rparr>
         \<and> list_all (\<lambda>t. task_id t <s counter_after 1 (tasks s)) (tasks s)"
proof -
  have "save_tasks s =
      Inr (s\<lparr>backing_file :=
             Document (if tasks s = [] then JNull else JArray (map to_json (tasks s)))\<rparr>)"
    using assms(1) by (simp add: save_tasks_eq)
  moreover note construct_saved [of "tasks s" w out err]
  moreover have "list_all (\<lambda>t. task_id t <s counter_after 1 (tasks s)) (tasks s)"
    using counter_after_above [OF assms(2), of 1] by (simp add: word_sless_alt)
  ultimately show ?thesis by simp
qed

theorem round_trip_witness:
  "writable \<lparr>tasks = [\<lparr>task_id = 7, description = ''a'', completed = True, priority = 3\<rparr>,
                      \<lparr>task_id = 2, description = ''b c'', completed = False, priority = 1\<rparr>],
            next_id = 8, backing_file = Unparseable ''{'', writable = True, cout = [], cerr = []\<rparr>
   \<and> save_tasks \<lparr>tasks = [\<lparr>task_id = 7, description = ''a'', completed = True, priority = 3\<rparr>,
                      \<lparr>task_id = 2, description = ''b c'', completed = False, priority = 1\<rparr>],
            next_id = 8, backing_file = Unparseable ''{'', writable = True, cout = [], cerr = []\<rparr>
     = Inr \<lparr>tasks = [\<lparr>task_id = 7, description = ''a'', completed = True, priority = 3\<rparr>,
                      \<lparr>task_id = 2, description = ''b c'', completed = False, priority = 1\<rparr>],
            next_id = 8,
            backing_file = Document (JArray
              [JObject [(''id'', JInt 7), (''description'', JString ''a''),
                        (''completed'', JBool True), (''priority'', JInt 3)],
               JObject [(''id'', JInt 2), (''description'', JString ''b c''),
                        (''completed'', JBool False), (''priority'', JInt 1)]]),
            writable = True, cout = [], cerr = []\<rparr>
   \<and> construct (Document (JArray
              [JObject [(''id'', JInt 7), (''description'', JString ''a''),
                        (''completed'', JBool True), (''priority'', JInt 3)],
               JObject [(''id'', JInt 2), (''description'', JString ''b c''),
                        (''completed'', JBool False), (''priority'', JInt 1)]])) True [] []
     = Inr \<lparr>tasks = [\<lparr>task_id = 7, description = ''a'', completed = True, priority = 3\<rparr>,
                      \<lparr>task_id = 2, description = ''b c'', completed = False, priority = 1\<rparr>],
            next_id = 8,
            backing_file = Document (JArray
              [JObject [(''id'', JInt 7), (''description'', JString ''a''),
                        (''completed'', JBool True), (''priority'', JInt 3)],
               JObject [(''id'', JInt 2), (''description'', JString ''b c''),
                        (''completed'', JBool False), (''priority'', JInt 1)]]),
            writable = True, cout = [], cerr = []\<rparr>
   \<and> (7 :: cint) <s 8 \<and> (2 :: cint) <s 8"
  using round_trip [of "\<lparr>tasks = [\<lparr>task_id = 7, description = ''a'', completed = True, priority = 3\<rparr>,
                      \<lparr>task_id = 2, description = ''b c'', completed = False, priority = 1\<rparr>],
            next_id = 8, backing_file = Unparseable ''{'', writable = True, cout = [], cerr = []\<rparr>" True "[]" "[]"]
  by (simp add: INT_MAX_def to_json_def counter_after_def word_sle_eq)

text \<open>
  Against claim C6 as stated: a collection whose task has the id \<open>INT_MAX\<close> is saved and
  loaded again with the same task, but the counter \<open>task.id + 1\<close> overflows; the word
  \<open>2147483648\<close> is the \<open>int\<close> \<open>-2147483648\<close>, and no \<open>int\<close> is above \<open>INT_MAX\<close>.
\<close>

theorem round_trip_counterexample:
  "save_tasks \<lparr>tasks = [\<lparr>task_id = 2147483647, description = ''a'', completed = False, priority = 2\<rparr>],
            next_id = 1, backing_file = No_file, writable = True, cout = [], cerr = []\<rparr>
     = Inr \<lparr>tasks = [\<lparr>task_id = 2147483647, description = ''a'', completed = False, priority = 2\<rparr>],
            next_id = 1,
            backing_file = Document (JArray [JObject
              [(''id'', JInt 2147483647), (''description'', JString ''a''),
               (''completed'', JBool False), (''priority'', JInt 2)]]),
            writable = True, cout = [], cerr = []\<rparr>
   \<and> construct (Document (JArray [JObject
              [(''id'', JInt 2147483647), (''description'', JString ''a''),
               (''completed'', JBool False), (''priority'', JInt 2)]])) True [] []
     = Inr \<lparr>tasks = [\<lparr>task_id = 2147483647, description = ''a'', completed = False, priority = 2\<rparr>],
            next_id = 2147483648,
            backing_file = Document (JArray [JObject
              [(''id'', JInt 2147483647), (''description'', JString ''a''),
               (''completed'', JBool False), (''priority'', JInt 2)]]),
            writable = True, cout = [], cerr = []\<rparr>
   \<and> sint (2147483648 :: cint) = - 2147483648
   \<and> \<not> (2147483647 :: cint) <s 2147483648"
  by (simp add: construct_def load_tasks_def try_load_def from_json_def and_then_def
      save_tasks_eq to_json_def word_sle_eq word_sless_alt)

section \<open>The ids that add assigns\<close>

text \<open>
  Claim C5, as the code has it. On a manager just constructed, whose loaded ids are all
  below \<open>INT_MAX\<close>, a sequence of adds that does not take the counter past \<open>INT_MAX\<close>
  appends one task per add, and their ids are the counter's value, that plus one, that
  plus two, and so on, whatever the priorities; every id already in the store is below
  them; and on an empty backing state the counter starts at 1, so the ids are 1, 2, 3
  and so on.
\<close>

theorem add_ids:
  assumes "construct f w out err = Inr s0"
    and "list_all (\<lambda>t. task_id t \<noteq> INT_MAX) (tasks s0)"
    and "sint (next_id s0) + int (length adds) \<le> 2147483647"
  shows "\<exists>s. add_all adds s0 = Inr s
      \<and> tasks s = tasks s0 @ numbered (next_id s0) adds
      \<and> map (\<lambda>t. sint (task_id t)) (numbered (next_id s0) adds)
          = map (\<lambda>k. sint (next_id s0) + int k) [0..<length adds]
      \<and> list_all (\<lambda>t. sint (task_id t) < sint (next_id s0)) (tasks s0)
      \<and> (empty_backing f \<longrightarrow> tasks s0 = [] \<and> next_id s0 = 1)"
proof -
  obtain s where "add_all adds s0 = Inr s" and "tasks s = tasks s0 @ numbered (next_id s0) adds"
    using add_all_tasks [of adds s0] by blast
  moreover note numbered_ids [OF assms(3)]
  moreover have "list_all (\<lambda>t. sint (task_id t) < sint (next_id s0)) (tasks s0)"
    using counter_after_above [OF assms(2), of 1] construct_counter [OF assms(1)] by simp
  moreover have "empty_backing f \<longrightarrow> tasks s0 = [] \<and> next_id s0 = 1"
    using construct_empty_backing [OF assms(1)] by blast
  ultimately show ?thesis by blast
qed


theorem add_ids_witness:
  "construct No_file True [] [] =
     Inr \<lparr>tasks = [], next_id = 1, backing_file = Document JNull,
          writable = True, cout = [], cerr = []\<rparr>
   \<and> empty_backing No_file
   \<and> (\<exists>s. add_all [(''a'', 1), (''b'', 3), (''c'', 1)]
          \<lparr>tasks = [], next_id = 1, backing_file = Document JNull,
           writable = True, cout = [], cerr = []\<rparr> = Inr s
        \<and> tasks s =
           [\<lparr>task_id = 1, description = ''a'', completed = False, priority = 1\<rparr>,
            \<lparr>task_id = 2, description = ''b'', completed = False, priority = 3\<rparr>,
            \<lparr>task_id = 3, description = ''c'', completed = False, priority = 1\<rparr>])"
proof -
  have c: "construct No_file True [] [] =
     Inr \<lparr>tasks = [], next_id = 1, backing_file = Document JNull,
          writable = True, cout = [], cerr = []\<rparr>"
    by (simp add: construct_def load_tasks_def save_tasks_eq)
  have e: "empty_backing No_file"
    by (simp add: empty_backing_def)
  show ?thesis
    using c e add_ids [OF c, of "[(''a'', 1), (''b'', 3), (''c'', 1)]"]
    by simp
qed

text \<open>
  Against claim C5 as stated: after loading a task with the id \<open>INT_MAX\<close> the counter
  has overflowed, and the next add assigns the id \<open>-2147483648\<close>, which is not above the
  id already in the store.
\<close>

theorem add_ids_counterexample:
  "construct (Document (JArray [JObject
       [(''id'', JInt 2147483647), (''description'', JString ''a''),
        (''completed'', JBool False), (''priority'', JInt 2)]])) True [] []
     = Inr \<lparr>tasks = [\<lparr>task_id = 2147483647, description = ''a'', completed = False, priority = 2\<rparr>],
            next_id = 2147483648,
            backing_file = Document (JArray [JObject
              [(''id'', JInt 2147483647), (''description'', JString ''a''),
               (''completed'', JBool False), (''priority'', JInt 2)]]),
            writable = True, cout = [], cerr = []\<rparr>
   \<and> add_task ''b'' 2
        \<lparr>tasks = [\<lparr>task_id = 2147483647, description = ''a'', completed = False, priority = 2\<rparr>],
         next_id = 2147483648,
         backing_file = Document (JArray [JObject
           [(''id'', JInt 2147483647), (''description'', JString ''a''),
            (''completed'', JBool False), (''priority'', JInt 2)]]),
         writable = True, cout = [], cerr = []\<rparr>
     = Inr \<lparr>tasks = [\<lparr>task_id = 2147483647, description = ''a'', completed = False, priority = 2\<rparr>,
                     \<lparr>task_id = 2147483648, description = ''b'', completed = False, priority = 2\<rparr>],
            next_id = 2147483649,
            backing_file = Document (JArray
              [JObject [(''id'', JInt 2147483647), (''description'', JString ''a''),
                        (''completed'', JBool False), (''priority'', JInt 2)],
               JObject [(''id'', JInt (- 2147483648)), (''description'', JString ''b''),
                        (''completed'', JBool False), (''priority'', JInt 2)]]),
            writable = True,
            cout = ''Task added with ID: -2147483648'' @ newline,
            cerr = []\<rparr>
   \<and> sint (2147483648 :: cint) = - 2147483648
   \<and> \<not> (2147483647 :: cint) <s 2147483648"
  by (simp add: construct_def load_tasks_def try_load_def from_json_def and_then_def
      add_task_def save_tasks_eq print_def show_int_ex to_json_def word_sle_eq word_sless_alt)

section \<open>Listing\<close>

text \<open>
  Claim C7. \<open>list_tasks\<close> prints the rows of \<open>listed\<close>. With completed tasks shown these
  are all the tasks of the collection (the same tasks, each as often), ordered by
  priority ascending and then id ascending; without, they are the same sequence with
  the completed tasks left out. The collection itself keeps its order.
\<close>

theorem list_sorted:
  "list_tasks show_completed s =
     print (if tasks s = [] then ''No tasks found.'' @ newline
            else newline @ ''TASK LIST'' @ newline @ ''---------'' @ newline @
                 concat (map row (listed show_completed s)) @ newline) s
   \<and> listed True s = std_sort (tasks s)
   \<and> mset (std_sort (tasks s)) = mset (tasks s)
   \<and> sorted_wrt by_priority_then_id (std_sort (tasks s))
   \<and> listed False s = filter (\<lambda>t. \<not> completed t) (listed True s)
   \<and> tasks (list_tasks show_completed s) = tasks s"
  by (simp add: list_tasks_def print_def print_rows_filter listed_def mset_std_sort sorted_std_sort)

theorem list_sorted_witness:
  "listed True
     \<lparr>tasks = [\<lparr>task_id = 1, description = ''a'', completed = False, priority = 3\<rparr>,
               \<lparr>task_id = 2, description = ''b'', completed = True, priority = 1\<rparr>,
               \<lparr>task_id = 3, description = ''c'', completed = False, priority = 1\<rparr>],
      next_id = 4, backing_file = No_file, writable = True, cout = [], cerr = []\<rparr>
   = [\<lparr>task_id = 2, description = ''b'', completed = True, priority = 1\<rparr>,
      \<lparr>task_id = 3, description = ''c'', completed = False, priority = 1\<rparr>,
      \<lparr>task_id = 1, description = ''a'', completed = False, priority = 3\<rparr>]
   \<and> listed False
     \<lparr>tasks = [\<lparr>task_id = 1, description = ''a'', completed = False, priority = 3\<rparr>,
               \<lparr>task_id = 2, description = ''b'', completed = True, priority = 1\<rparr>,
               \<lparr>task_id = 3, description = ''c'', completed = False, priority = 1\<rparr>],
      next_id = 4, backing_file = No_file, writable = True, cout = [], cerr = []\<rparr>
   = [\<lparr>task_id = 3, description = ''c'', completed = False, priority = 1\<rparr>,
      \<lparr>task_id = 1, description = ''a'', completed = False, priority = 3\<rparr>]"
  using list_sorted [of True
     "\<lparr>tasks = [\<lparr>task_id = 1, description = ''a'', completed = False, priority = 3\<rparr>,
               \<lparr>task_id = 2, description = ''b'', completed = True, priority = 1\<rparr>,
               \<lparr>task_id = 3, description = ''c'', completed = False, priority = 1\<rparr>],
      next_id = 4, backing_file = No_file, writable = True, cout = [], cerr = []\<rparr>"]
    list_sorted [of False
     "\<lparr>tasks = [\<lparr>task_id = 1, description = ''a'', completed = False, priority = 3\<rparr>,
               \<lparr>task_id = 2, description = ''b'', completed = True, priority = 1\<rparr>,
               \<lparr>task_id = 3, description = ''c'', completed = False, priority = 1\<rparr>],
      next_id = 4, backing_file = No_file, writable = True, cout = [], cerr = []\<rparr>"]
  by (simp add: std_sort_def task_less_def word_sless_alt)

text \<open>
  Claim C3, as the code has it. \<open>No tasks found.\<close> is what \<open>list_tasks\<close> prints exactly
  when the collection holds no task at all. On a collection that is not empty whose
  tasks are all filtered out it prints the header, no row, and the closing blank line.
\<close>

theorem no_tasks_only_when_empty:
  "(list_tasks show_completed s = print (''No tasks found.'' @ newline) s) = (tasks s = [])
   \<and> (tasks s \<noteq> [] \<and> listed show_completed s = [] \<longrightarrow>
        list_tasks show_completed s =
          print (newline @ ''TASK LIST'' @ newline @ ''---------'' @ newline @ newline) s)"
proof (intro conjI impI)
  show "(list_tasks show_completed s = print (''No tasks found.'' @ newline) s) = (tasks s = [])"
    by (rule no_tasks_iff)
next
  assume "tasks s \<noteq> [] \<and> listed show_completed s = []"
  then show "list_tasks show_completed s =
      print (newline @ ''TASK LIST'' @ newline @ ''---------'' @ newline @ newline) s"
    by (simp add: list_tasks_def print_rows_filter listed_def)
qed

theorem no_tasks_only_when_empty_witness:
  "tasks \<lparr>tasks = [\<lparr>task_id = 1, description = ''Buy milk'', completed = True, priority = 1\<rparr>],
          next_id = 3, backing_file = No_file, writable = True, cout = [], cerr = []\<rparr> \<noteq> []
   \<and> listed False
        \<lparr>tasks = [\<lparr>task_id = 1, description = ''Buy milk'', completed = True, priority = 1\<rparr>],
          next_id = 3, backing_file = No_file, writable = True, cout = [], cerr = []\<rparr> = []
   \<and> list_tasks False
        \<lparr>tasks = [\<lparr>task_id = 1, description = ''Buy milk'', completed = True, priority = 1\<rparr>],
          next_id = 3, backing_file = No_file, writable = True, cout = [], cerr = []\<rparr>
     = \<lparr>tasks = [\<lparr>task_id = 1, description = ''Buy milk'', completed = True, priority = 1\<rparr>],
          next_id = 3, backing_file = No_file, writable = True,
          cout = newline @ ''TASK LIST'' @ newline @ ''---------'' @ newline @ newline, cerr = []\<rparr>"
  using no_tasks_only_when_empty [of False
      "\<lparr>tasks = [\<lparr>task_id = 1, description = ''Buy milk'', completed = True, priority = 1\<rparr>],
          next_id = 3, backing_file = No_file, writable = True, cout = [], cerr = []\<rparr>"]
  by (simp add: listed_def std_sort_def print_def)

text \<open>
  Against claim C3 as stated: \<open>list pending\<close> on a store whose only task is completed
  lists nothing, and prints the header and a blank line, not \<open>No tasks found.\<close>
\<close>

theorem list_pending_counterexample:
  "listed False
        \<lparr>tasks = [\<lparr>task_id = 1, description = ''Buy milk'', completed = True, priority = 1\<rparr>],
          next_id = 3, backing_file = No_file, writable = True, cout = [], cerr = []\<rparr> = []
   \<and> cout (list_tasks False
        \<lparr>tasks = [\<lparr>task_id = 1, description = ''Buy milk'', completed = True, priority = 1\<rparr>],
          next_id = 3, backing_file = No_file, writable = True, cout = [], cerr = []\<rparr>)
     = newline @ ''TASK LIST'' @ newline @ ''---------'' @ newline @ newline
   \<and> newline @ ''TASK LIST'' @ newline @ ''---------'' @ newline @ newline \<noteq> ''No tasks found.'' @ newline"
  by (simp add: listed_def std_sort_def list_tasks_def print_def newline_def)

section \<open>Deleting\<close>

text \<open>
  Claim C8, as the code has it. When the store holds a task with the id, \<open>delete_task\<close>
  removes every task with that id and keeps the others as they are, in their order;
  when the ids in the store are distinct that is exactly one task. A second delete with
  the same id only prints that the task is not found.
\<close>

theorem delete_removes:
  assumes "list_ex (\<lambda>t. task_id t = i) (tasks s)"
  shows "delete_task i s = Inr (after_delete i s)
     \<and> tasks (after_delete i s) = filter (\<lambda>t. task_id t \<noteq> i) (tasks s)
     \<and> (distinct (map task_id (tasks s)) \<longrightarrow>
          length (tasks (after_delete i s)) + 1 = length (tasks s))
     \<and> delete_task i (after_delete i s) = Inr (print (not_found i) (after_delete i s))"
proof -
  have 1: "delete_task i s = Inr (after_delete i s)"
    using delete_task_found [OF assms]
    by (simp add: save_tasks_eq and_then_def after_delete_def)
  have 2: "tasks (after_delete i s) = filter (\<lambda>t. task_id t \<noteq> i) (tasks s)"
    by (simp add: after_delete_def print_def)
  have 3: "distinct (map task_id (tasks s)) \<longrightarrow>
      length (tasks (after_delete i s)) + 1 = length (tasks s)"
    using removes_one [OF _ assms] 2 by simp
  have "list_all (\<lambda>t. task_id t \<noteq> i) (tasks (after_delete i s))"
    using 2 by (simp add: list_all_iff)
  then have 4: "delete_task i (after_delete i s) = Inr (print (not_found i) (after_delete i s))"
    by (rule delete_task_absent)
  from 1 2 3 4 show ?thesis by simp
qed

theorem delete_removes_witness:
  "list_ex (\<lambda>t. task_id t = 1)
     [\<lparr>task_id = 1, description = ''a'', completed = False, priority = 1\<rparr>,
      \<lparr>task_id = 2, description = ''b'', completed = True, priority = 2\<rparr>]
   \<and> distinct (map task_id
     [\<lparr>task_id = 1, description = ''a'', completed = False, priority = 1\<rparr>,
      \<lparr>task_id = 2, description = ''b'', completed = True, priority = 2\<rparr>])
   \<and> delete_task 1
       \<lparr>tasks = [\<lparr>task_id = 1, description = ''a'', completed = False, priority = 1\<rparr>,
                 \<lparr>task_id = 2, description = ''b'', completed = True, priority = 2\<rparr>],
        next_id = 3, backing_file = No_file, writable = True, cout = [], cerr = []\<rparr>
     = Inr \<lparr>tasks = [\<lparr>task_id = 2, description = ''b'', completed = True, priority = 2\<rparr>],
        next_id = 3,
        backing_file = Document (JArray [JObject
          [(''id'', JInt 2), (''description'', JString ''b''),
           (''completed'', JBool True), (''priority'', JInt 2)]]),
        writable = True, cout = ''Task deleted successfully!!'' @ newline, cerr = []\<rparr>
   \<and> delete_task 1
       \<lparr>tasks = [\<lparr>task_id = 2, description = ''b'', completed = True, priority = 2\<rparr>],
        next_id = 3,
        backing_file = Document (JArray [JObject
          [(''id'', JInt 2), (''description'', JString ''b''),
           (''completed'', JBool True), (''priority'', JInt 2)]]),
        writable = True, cout = ''Task deleted successfully!!'' @ newline, cerr = []\<rparr>
     = Inr \<lparr>tasks = [\<lparr>task_id = 2, description = ''b'', completed = True, priority = 2\<rparr>],
        next_id = 3,
        backing_file = Document (JArray [JObject
          [(''id'', JInt 2), (''description'', JString ''b''),
           (''completed'', JBool True), (''priority'', JInt 2)]]),
        writable = True,
        cout = ''Task deleted successfully!!'' @ newline @ ''Task with ID 1 not found.'' @ newline,
        cerr = []\<rparr>"
  using delete_removes [of 1
       "\<lparr>tasks = [\<lparr>task_id = 1, description = ''a'', completed = False, priority = 1\<rparr>,
                 \<lparr>task_id = 2, description = ''b'', completed = True, priority = 2\<rparr>],
        next_id = 3, backing_file = No_file, writable = True, cout = [], cerr = []\<rparr>"]
  by (simp add: after_delete_def print_def to_json_def not_found_def show_int_1)

text \<open>
  Against claim C8 as stated: a backing file may hold two records with one id, the
  constructor loads both, and one delete removes both.
\<close>

theorem delete_duplicates_counterexample:
  "construct (Document (JArray
       [JObject [(''id'', JInt 1), (''description'', JString ''a''),
                 (''completed'', JBool False), (''priority'', JInt 1)],
        JObject [(''id'', JInt 1), (''description'', JString ''b''),
                 (''completed'', JBool False), (''priority'', JInt 2)],
        JObject [(''id'', JInt 2), (''description'', JString ''c''),
                 (''completed'', JBool False), (''priority'', JInt 2)]])) True [] []
     = Inr \<lparr>tasks = [\<lparr>task_id = 1, description = ''a'', completed = False, priority = 1\<rparr>,
                      \<lparr>task_id = 1, description = ''b'', completed = False, priority = 2\<rparr>,
                      \<lparr>task_id = 2, description = ''c'', completed = False, priority = 2\<rparr>],
            next_id = 3,
            backing_file = Document (JArray
              [JObject [(''id'', JInt 1), (''description'', JString ''a''),
                        (''completed'', JBool False), (''priority'', JInt 1)],
               JObject [(''id'', JInt 1), (''description'', JString ''b''),
                        (''completed'', JBool False), (''priority'', JInt 2)],
               JObject [(''id'', JInt 2), (''description'', JString ''c''),
                        (''completed'', JBool False), (''priority'', JInt 2)]]),
            writable = True, cout = [], cerr = []\<rparr>
   \<and> delete_task 1
        \<lparr>tasks = [\<lparr>task_id = 1, description = ''a'', completed = False, priority = 1\<rparr>,
                  \<lparr>task_id = 1, description = ''b'', completed = False, priority = 2\<rparr>,
                  \<lparr>task_id = 2, description = ''c'', completed = False, priority = 2\<rparr>],
         next_id = 3,
         backing_file = Document (JArray
              [JObject [(''id'', JInt 1), (''description'', JString ''a''),
                        (''completed'', JBool False), (''priority'', JInt 1)],
               JObject [(''id'', JInt 1), (''description'', JString ''b''),
                        (''completed'', JBool False), (''priority'', JInt 2)],
               JObject [(''id'', JInt 2), (''description'', JString ''c''),
                        (''completed'', JBool False), (''priority'', JInt 2)]]),
         writable = True, cout = [], cerr = []\<rparr>
     = Inr \<lparr>tasks = [\<lparr>task_id = 2, description = ''c'', completed = False, priority = 2\<rparr>],
            next_id = 3,
            backing_file = Document (JArray
              [JObject [(''id'', JInt 2), (''description'', JString ''c''),
                        (''completed'', JBool False), (''priority'', JInt 2)]]),
            writable = True,
            cout = ''Task deleted successfully!!'' @ newline,
            cerr = []\<rparr>"
  by (simp add: construct_def load_tasks_def try_load_def from_json_def and_then_def
      delete_task_def save_tasks_eq print_def to_json_def word_sle_eq)

section \<open>The commands done and delete\<close>

text \<open>
  Claim C1, as the code has it. For every input line that splits into exactly two
  tokens, the first being \<open>done\<close> or \<open>delete\<close>, on whose second token \<open>std::stoi\<close>
  throws (no digit after the optional white space and sign, or a value that is not an
  \<open>int\<close>), the loop body prints \<open>Invalid task ID.\<close> and changes nothing else: the tasks,
  the counter and the backing file are as before.
\<close>

theorem invalid_id:
  assumes "split_command ln = [command, token]"
    and "command = ''done'' \<or> command = ''delete''"
    and "isl (stoi token)"
  shows "exec_line ln s = Continue (s\<lparr>cout := cout s @ ''Invalid task ID.'' @ newline\<rparr>)"
proof -
  obtain e where "stoi token = Inl e"
    using assms(3) by (cases "stoi token") simp_all
  then have "with_id operation token s = Continue (print (''Invalid task ID.'' @ newline) s)"
    for operation
    by (simp add: with_id_def)
  with assms(1,2) show ?thesis
    by (auto simp add: exec_line_def run_command_def print_def)
qed

theorem invalid_id_witness:
  "split_command ''done abc'' = [''done'', ''abc'']
   \<and> isl (stoi ''abc'')
   \<and> exec_line ''done abc''
       \<lparr>tasks = [\<lparr>task_id = 1, description = ''a'', completed = False, priority = 2\<rparr>],
        next_id = 2, backing_file = No_file, writable = True, cout = [], cerr = []\<rparr>
     = Continue
       \<lparr>tasks = [\<lparr>task_id = 1, description = ''a'', completed = False, priority = 2\<rparr>],
        next_id = 2, backing_file = No_file, writable = True,
        cout = ''Invalid task ID.'' @ newline, cerr = []\<rparr>"
  using invalid_id [of "''done abc''" "''done''" "''abc''"
       "\<lparr>tasks = [\<lparr>task_id = 1, description = ''a'', completed = False, priority = 2\<rparr>],
        next_id = 2, backing_file = No_file, writable = True, cout = [], cerr = []\<rparr>"]
  by (simp add: split_done_abc stoi_abc)

text \<open>
  Against claim C1 as stated: the token \<open>1abc\<close> is not an integer literal, but
  \<open>std::stoi\<close> reads its leading \<open>1\<close> and ignores the rest, so \<open>done 1abc\<close> marks task 1
  as completed and rewrites the file.
\<close>

theorem trailing_characters_counterexample:
  "split_command ''done 1abc'' = [''done'', ''1abc'']
   \<and> stoi ''1abc'' = Inr 1
   \<and> exec_line ''done 1abc''
       \<lparr>tasks = [\<lparr>task_id = 1, description = ''a'', completed = False, priority = 2\<rparr>],
        next_id = 2, backing_file = No_file, writable = True, cout = [], cerr = []\<rparr>
     = Continue
       \<lparr>tasks = [\<lparr>task_id = 1, description = ''a'', completed = True, priority = 2\<rparr>],
        next_id = 2,
        backing_file = Document (JArray [JObject
          [(''id'', JInt 1), (''description'', JString ''a''),
           (''completed'', JBool True), (''priority'', JInt 2)]]),
        writable = True, cout = ''Task marked as completed!'' @ newline, cerr = []\<rparr>"
  by (simp add: split_done stoi_1abc exec_line_def run_command_def with_id_def mark_done_def
      save_tasks_eq and_then_def print_def to_json_def)


section \<open>The add command's priority flag\<close>

text \<open>
  Claim C10, as the code has it. When none of the tokens between the first description
  token and a final \<open>-p\<close> is \<open>-p\<close>, the final \<open>-p\<close> is joined to the description like any
  other token and the task is created with the default priority 2 (MEDIUM); and a \<open>-p\<close>
  that the scan reaches with a token after it takes that token as the priority value.
\<close>

theorem trailing_flag:
  assumes "''-p'' \<notin> set middle"
  shows "add_arguments (middle @ [''-p'']) first 2 = (joined first middle @ '' -p'', 2)
     \<and> (\<exists>s'. run_command (''add'' # first # middle @ [''-p'']) s = Continue s'
            \<and> tasks s' = tasks s @
                 [\<lparr>task_id = next_id s, description = joined first middle @ '' -p'',
                   completed = False, priority = 2\<rparr>])
     \<and> add_arguments (middle @ ''-p'' # v # rest) first prio
          = add_arguments rest (joined first middle) (parse_priority v)"
proof -
  have 1: "add_arguments (middle @ [''-p'']) first 2 = (joined first middle @ '' -p'', 2)"
    using add_arguments_plain [OF assms, of "[''-p'']" first 2] by simp
  obtain s' where a: "add_task (joined first middle @ '' -p'') 2 s = Inr s'"
    and t: "tasks s' = tasks s @
        [\<lparr>task_id = next_id s, description = joined first middle @ '' -p'',
          completed = False, priority = 2\<rparr>]"
    using add_task_tasks [of "joined first middle @ '' -p''" 2 s] by blast
  have "run_command (''add'' # first # middle @ [''-p'']) s = Continue s'"
    using 1 a by (simp add: run_command_def)
  with t have 2: "\<exists>s'. run_command (''add'' # first # middle @ [''-p'']) s = Continue s'
      \<and> tasks s' = tasks s @
           [\<lparr>task_id = next_id s, description = joined first middle @ '' -p'',
             completed = False, priority = 2\<rparr>]"
    by blast
  have 3: "add_arguments (middle @ ''-p'' # v # rest) first prio
      = add_arguments rest (joined first middle) (parse_priority v)"
    using add_arguments_plain [OF assms, of "''-p'' # v # rest" first prio] by simp
  from 1 2 3 show ?thesis by simp
qed

theorem trailing_flag_witness:
  "''-p'' \<notin> set [''milk'']
   \<and> split_command ''add Buy milk -p'' = ''add'' # ''Buy'' # [''milk''] @ [''-p'']
   \<and> add_arguments ([''milk''] @ [''-p'']) ''Buy'' 2 = (''Buy milk -p'', 2)
   \<and> (\<exists>s'. run_command (''add'' # ''Buy'' # [''milk''] @ [''-p''])
              \<lparr>tasks = [], next_id = 1, backing_file = No_file, writable = True, cout = [], cerr = []\<rparr>
            = Continue s'
          \<and> tasks s' = [\<lparr>task_id = 1, description = ''Buy milk -p'', completed = False, priority = 2\<rparr>])
   \<and> add_arguments ([''milk''] @ ''-p'' # ''low'' # []) ''Buy'' 2 = (''Buy milk'', 3)"
  using trailing_flag [of "[''milk'']" "''Buy''"
      "\<lparr>tasks = [], next_id = 1, backing_file = No_file, writable = True, cout = [], cerr = []\<rparr>"
      "''low''" "[]" 2]
  by (simp add: split_add_1 joined_def parse_priority_def)

text \<open>
  Against claim C10 as stated: in \<open>add x -p high -p\<close> the final \<open>-p\<close> is joined to the
  description but the task gets the priority HIGH of the earlier flag, and in
  \<open>add x -p -p\<close> the final \<open>-p\<close> is consumed as the value of the flag before it and is
  not joined to the description.
\<close>

theorem trailing_flag_counterexample:
  "split_command ''add x -p high -p'' = [''add'', ''x'', ''-p'', ''high'', ''-p'']
   \<and> exec_line ''add x -p high -p''
       \<lparr>tasks = [], next_id = 1, backing_file = No_file, writable = True, cout = [], cerr = []\<rparr>
     = Continue
       \<lparr>tasks = [\<lparr>task_id = 1, description = ''x -p'', completed = False, priority = 1\<rparr>],
        next_id = 2,
        backing_file = Document (JArray [JObject
          [(''id'', JInt 1), (''description'', JString ''x -p''),
           (''completed'', JBool False), (''priority'', JInt 1)]]),
        writable = True, cout = ''Task added with ID: 1'' @ newline, cerr = []\<rparr>
   \<and> split_command ''add x -p -p'' = [''add'', ''x'', ''-p'', ''-p'']
   \<and> exec_line ''add x -p -p''
       \<lparr>tasks = [], next_id = 1, backing_file = No_file, writable = True, cout = [], cerr = []\<rparr>
     = Continue
       \<lparr>tasks = [\<lparr>task_id = 1, description = ''x'', completed = False, priority = 2\<rparr>],
        next_id = 2,
        backing_file = Document (JArray [JObject
          [(''id'', JInt 1), (''description'', JString ''x''),
           (''completed'', JBool False), (''priority'', JInt 2)]]),
        writable = True, cout = ''Task added with ID: 1'' @ newline, cerr = []\<rparr>"
  by (simp add: split_add_2 split_add_3 exec_line_def run_command_def parse_priority_def
      add_task_def save_tasks_eq and_then_def print_def to_json_def show_int_1)

section \<open>The end of the loop\<close>

text \<open>
  Claim C2 does not hold of the code at the end of the input. The loop never tests the
  state of \<open>std::cin\<close>: when the input is exhausted \<open>std::getline\<close> fails, the line is
  empty, and \<open>continue\<close> starts the next pass, for ever. So, whatever the backing file,
  \<open>main\<close> has no outcome on the empty input, nor on the input that holds the one line
  \<open>help\<close>.
\<close>

theorem end_of_input_never_ends:
  "(\<forall>f w. main f w [] = None) \<and> (\<forall>f w. main f w (''help'' @ newline) = None)"
proof (intro conjI allI)
  fix f w
  obtain s where c: "construct f w [] [] = Inr s"
    using construct_returns by blast
  show "main f w [] = None"
    using c at_end_of_input
      [of "\<lparr>manager = show_help s, cin = \<lparr>buffer = [], eofbit = False, failbit = False\<rparr>, line = []\<rparr>"]
    by (simp add: main_def)
  let ?p = "\<lparr>manager = show_help s,
      cin = \<lparr>buffer = ''help'' @ newline, eofbit = False, failbit = False\<rparr>, line = []\<rparr>"
  let ?q = "\<lparr>manager = show_help (print ''> '' (show_help s)),
      cin = \<lparr>buffer = [], eofbit = False, failbit = False\<rparr>, line = ''help''\<rparr>"
  have "main_loop ?p = main_loop ?q"
    by (subst main_loop.simps)
       (simp add: getline_def newline_def exec_line_def split_help run_command_def Let_def)
  also have "\<dots> = None"
    by (rule at_end_of_input) simp_all
  finally show "main f w (''help'' @ newline) = None"
    using c by (simp add: main_def)
qed

end
